theory Spec2Isabelle
  imports Main "HOL-Library.Char_ord" "HOL-Library.List_Lexorder" "HOL-Library.Product_Lexorder"
begin

section \<open>Calendar utility\<close>

text \<open>
  The engine of \<^verbatim>\<open>src/app.py\<close> works on \<^verbatim>\<open>datetime.date\<close> values of one month.
  A date is the record of its three fields. \<^verbatim>\<open>date.weekday()\<close> is computed the way
  CPython's \<^verbatim>\<open>datetime\<close> does it: the proleptic Gregorian ordinal plus 6, modulo 7
  (Monday is 0, Sunday is 6). Python integers are unbounded, hence \<open>int\<close>.
\<close>

datatype error = ValueError | NameError string

record dt_date =
  year :: int
  month :: int
  day :: int

definition isleap :: "int \<Rightarrow> bool" where
  "isleap y = (y mod 4 = 0 \<and> (y mod 100 \<noteq> 0 \<or> y mod 400 = 0))"

definition mdays :: "int list" where
  "mdays = [0, 31, 28, 31, 30, 31, 30, 31, 31, 30, 31, 30, 31]"

definition days_in_month :: "int \<Rightarrow> int \<Rightarrow> int" where
  "days_in_month y m = mdays ! nat m + (if m = 2 \<and> isleap y then 1 else 0)"

definition days_before_year :: "int \<Rightarrow> int" where
  "days_before_year y = (let p = y - 1 in p * 365 + p div 4 - p div 100 + p div 400)"

definition days_before_month :: "int \<Rightarrow> int \<Rightarrow> int" where
  "days_before_month y m =
     [-1, 0, 31, 59, 90, 120, 151, 181, 212, 243, 273, 304, 334] ! nat m
       + (if m > 2 \<and> isleap y then 1 else 0)"

definition toordinal :: "dt_date \<Rightarrow> int" where
  "toordinal d = days_before_year (year d) + days_before_month (year d) (month d) + day d"

definition weekday :: "dt_date \<Rightarrow> int" where
  "weekday d = (toordinal d + 6) mod 7"

text \<open>
  \<^verbatim>\<open>date_range_for_month\<close>: \<^verbatim>\<open>dt.date(year, month, 1)\<close> raises \<^verbatim>\<open>ValueError\<close> outside
  years 1..9999 and months 1..12; otherwise the result lists the first day plus
  \<open>i\<close> days for \<open>i\<close> below the month's length, which stays inside the month.
\<close>

definition date_range_for_month :: "int \<Rightarrow> int \<Rightarrow> error + dt_date list" where
  "date_range_for_month y m =
     (if 1 \<le> y \<and> y \<le> 9999 \<and> 1 \<le> m \<and> m \<le> 12
      then Inr (map (\<lambda>i. \<lparr>year = y, month = m, day = 1 + i\<rparr>) [0..days_in_month y m - 1])
      else Inl ValueError)"

definition is_weekend :: "dt_date \<Rightarrow> bool" where
  "is_weekend date_obj = (weekday date_obj \<ge> 4)"

text \<open>
  \<^verbatim>\<open>d.strftime("%Y-%m-%d")\<close>: zero-padded decimal fields joined by hyphens. (For years
  below 1000 the padding of \<^verbatim>\<open>%Y\<close> depends on the platform's C library; the model pads.)
\<close>

definition digit :: "int \<Rightarrow> char" where
  "digit n = ''0123456789'' ! nat (n mod 10)"

definition pad2 :: "int \<Rightarrow> string" where
  "pad2 n = [digit (n div 10), digit n]"

definition pad4 :: "int \<Rightarrow> string" where
  "pad4 n = [digit (n div 1000), digit (n div 100), digit (n div 10), digit n]"

definition strftime :: "dt_date \<Rightarrow> string" where
  "strftime d = pad4 (year d) @ ''-'' @ pad2 (month d) @ ''-'' @ pad2 (day d)"

section \<open>Data model\<close>

text \<open>
  The data frames are lists of rows. The source compares the columns \<^verbatim>\<open>role\<close>,
  \<^verbatim>\<open>position\<close> and \<^verbatim>\<open>request_type\<close> only for equality with fixed (Japanese) literals;
  each such column is a datatype with one constructor per literal the code tests and a
  catch-all for every other value:
  \<^item> role: \<open>Shain\<close> is the salaried-employee literal, \<open>Arubaito\<close> the part-timer literal;
  \<^item> position: \<open>Ryoricho\<close> is the head-chef literal, \<open>Choriba\<close> the kitchen-only literal,
    \<open>AllRound\<close> the all-round literal; \<open>PosOther\<close> covers the empty string and the rest;
  \<^item> request type: \<open>Kibou\<close> is the "desired" literal, \<open>NG\<close> the "blocked" literal.

  A numeric cell read through \<^verbatim>\<open>pd.isna\<close> and \<^verbatim>\<open>int(...)\<close> is one of: missing (\<open>NaN\<close>),
  a value on which \<^verbatim>\<open>int\<close> succeeds with the given result (\<open>Num\<close>), or a value on which
  \<^verbatim>\<open>int\<close> raises (\<open>NonNumeric\<close>).
\<close>

datatype role = Shain | Arubaito | RoleOther
datatype position = Ryoricho | Choriba | AllRound | PosOther
datatype req_kind = Kibou | NG | ReqOther
datatype cell = NaN | Num int | NonNumeric

record staff_row =
  staff_id :: string
  role :: role
  position :: position
  dayoff1 :: cell
  dayoff2 :: cell
  desired_shifts_per_week :: cell
  desired_shifts_per_month :: cell

text \<open>
  \<^verbatim>\<open>STAFF_DF\<close>: the rows, and whether the two capacity columns exist (the source tests
  \<^verbatim>\<open>"desired_shifts_per_month" in STAFF_DF.columns\<close>).
\<close>

record staff_df =
  has_desired_shifts_per_month :: bool
  has_desired_shifts_per_week :: bool
  rows :: "staff_row list"

record request_row =
  req_date :: string
  req_staff_id :: string
  request_type :: req_kind
  req_start_time :: string
  req_end_time :: string
  req_note :: string

record shift_row =
  date :: string
  shift_staff_id :: string
  start_time :: string
  end_time :: string
  source :: string

definition DEFAULT_OPEN_TIME :: string where "DEFAULT_OPEN_TIME = ''17:00''"
definition DEFAULT_CLOSE_TIME :: string where "DEFAULT_CLOSE_TIME = ''24:00''"
definition WEEKDAY_REQUIRED_STAFF :: int where "WEEKDAY_REQUIRED_STAFF = 5"
definition WEEKEND_REQUIRED_STAFF :: int where "WEEKEND_REQUIRED_STAFF = 6"
definition MANAGER_ID :: string where "MANAGER_ID = ''S001''"
definition CHEF_ID :: string where "CHEF_ID = ''S002''"
definition EMP_SATO_ID :: string where "EMP_SATO_ID = ''S003''"

text \<open>\<^verbatim>\<open>dict.get(key, default)\<close>.\<close>

definition dict_get :: "('k \<rightharpoonup> 'v) \<Rightarrow> 'k \<Rightarrow> 'v \<Rightarrow> 'v" where
  "dict_get m k dflt = (case m k of None \<Rightarrow> dflt | Some v \<Rightarrow> v)"

section \<open>Roster index and request index\<close>

text \<open>
  The local variables of \<^verbatim>\<open>auto_assign_shifts_for_month\<close> that its nested functions
  close over are collected in one record; each field is computed as the source does.
\<close>

definition add_request ::
  "(string \<rightharpoonup> string set \<times> string set) \<Rightarrow> request_row \<Rightarrow> (string \<rightharpoonup> string set \<times> string set)" where
  "add_request m r =
     (let d = req_date r;
          hn = (case m d of None \<Rightarrow> ({}, {}) | Some v \<Rightarrow> v)
      in if request_type r = Kibou then m(d \<mapsto> (insert (req_staff_id r) (fst hn), snd hn))
         else if request_type r = NG then m(d \<mapsto> (fst hn, insert (req_staff_id r) (snd hn)))
         else m(d \<mapsto> hn))"

definition build_req_by_date :: "request_row list \<Rightarrow> (string \<rightharpoonup> string set \<times> string set)" where
  "build_req_by_date requests_df = foldl add_request Map.empty requests_df"

definition build_employees :: "staff_df \<Rightarrow> string list" where
  "build_employees df = map staff_id (filter (\<lambda>r. role r = Shain) (rows df))"

definition build_parttimers :: "staff_df \<Rightarrow> string list" where
  "build_parttimers df = map staff_id (filter (\<lambda>r. role r = Arubaito) (rows df))"

definition build_position_map :: "staff_df \<Rightarrow> (string \<rightharpoonup> position)" where
  "build_position_map df = foldl (\<lambda>m r. m(staff_id r \<mapsto> position r)) Map.empty (rows df)"

definition dayoff_of :: "cell \<Rightarrow> int set" where
  "dayoff_of c = (case c of Num w \<Rightarrow> (if 0 \<le> w \<and> w \<le> 6 then {w} else {}) | _ \<Rightarrow> {})"

definition build_employee_dayoff_map :: "staff_df \<Rightarrow> (string \<rightharpoonup> int set)" where
  "build_employee_dayoff_map df =
     foldl (\<lambda>m r. if role r \<noteq> Shain then m
                  else m(staff_id r \<mapsto> dayoff_of (dayoff1 r) \<union> dayoff_of (dayoff2 r)))
       Map.empty (rows df)"

definition to_int_safe :: "cell \<Rightarrow> int \<Rightarrow> int" where
  "to_int_safe x dflt = (case x of NaN \<Rightarrow> dflt | Num n \<Rightarrow> n | NonNumeric \<Rightarrow> dflt)"

definition build_max_shifts_per_person :: "staff_df \<Rightarrow> (string \<rightharpoonup> int)" where
  "build_max_shifts_per_person df =
     (if has_desired_shifts_per_month df
      then foldl (\<lambda>m r. m(staff_id r \<mapsto> to_int_safe (desired_shifts_per_month r) 0)) Map.empty (rows df)
      else if has_desired_shifts_per_week df
      then foldl (\<lambda>m r. m(staff_id r \<mapsto> to_int_safe (desired_shifts_per_week r) 0 * 4)) Map.empty (rows df)
      else foldl (\<lambda>m r. m(staff_id r \<mapsto> 12)) Map.empty (rows df))"

record env =
  employees :: "string list"
  parttimers :: "string list"
  position_map :: "string \<rightharpoonup> position"
  employee_dayoff_map :: "string \<rightharpoonup> int set"
  max_shifts_per_person :: "string \<rightharpoonup> int"
  req_by_date :: "string \<rightharpoonup> string set \<times> string set"
  existing_shifts_df :: "shift_row list"

definition closure :: "staff_df \<Rightarrow> request_row list \<Rightarrow> shift_row list \<Rightarrow> env" where
  "closure df requests_df existing =
     \<lparr>employees = build_employees df,
      parttimers = build_parttimers df,
      position_map = build_position_map df,
      employee_dayoff_map = build_employee_dayoff_map df,
      max_shifts_per_person = build_max_shifts_per_person df,
      req_by_date = build_req_by_date requests_df,
      existing_shifts_df = existing\<rparr>"

definition is_kitchen_capable_for_day :: "env \<Rightarrow> string \<Rightarrow> bool \<Rightarrow> bool" where
  "is_kitchen_capable_for_day E sid sato_is_off =
     (if sid = EMP_SATO_ID then False
      else if sato_is_off \<and> sid = MANAGER_ID then False
      else let pos = dict_get (position_map E) sid PosOther
           in if pos = Ryoricho \<or> pos = Choriba \<or> pos = AllRound then True
              else if sid = MANAGER_ID then True
              else False)"

definition kitchen_priority_rank :: "env \<Rightarrow> string \<Rightarrow> int" where
  "kitchen_priority_rank E sid =
     (let pos = dict_get (position_map E) sid PosOther
      in if sid = CHEF_ID then 0
         else if pos = Choriba then 1
         else if pos = AllRound then 2
         else if sid = MANAGER_ID then 3
         else 9)"

definition counts_for_hall :: "env \<Rightarrow> string \<Rightarrow> bool" where
  "counts_for_hall E sid =
     (let pos = dict_get (position_map E) sid PosOther
      in if pos = Choriba then False else True)"

section \<open>Engine state\<close>

text \<open>
  The two variables the engine mutates: the per-worker counter and the list of rows
  created in this run. The counter starts at 0 for every roster id and is increased
  once for every confirmed row whose id is a key.
\<close>

record state =
  assigned_count :: "string \<rightharpoonup> int"
  new_shift_rows :: "shift_row list"

definition initial_assigned_count :: "env \<Rightarrow> (string \<rightharpoonup> int)" where
  "initial_assigned_count E =
     foldl (\<lambda>m row. let sid = shift_staff_id row
                     in (case m sid of None \<Rightarrow> m | Some c \<Rightarrow> m(sid \<mapsto> c + 1)))
       (\<lambda>sid. case max_shifts_per_person E sid of None \<Rightarrow> None | Some _ \<Rightarrow> Some 0)
       (existing_shifts_df E)"

definition initial_state :: "env \<Rightarrow> state" where
  "initial_state E = \<lparr>assigned_count = initial_assigned_count E, new_shift_rows = []\<rparr>"

text \<open>
  Both selection loops record the chosen worker with the same three statements
  (append to \<^verbatim>\<open>assigned_today\<close>, bump \<^verbatim>\<open>assigned_count\<close>, append the new row);
  the last two are \<open>record_assignment\<close>.
\<close>

definition record_assignment :: "string \<Rightarrow> string \<Rightarrow> state \<Rightarrow> state" where
  "record_assignment day_str sid st =
     \<lparr>assigned_count = (assigned_count st)(sid \<mapsto> dict_get (assigned_count st) sid 0 + 1),
      new_shift_rows = new_shift_rows st @
        [\<lparr>date = day_str, shift_staff_id = sid, start_time = DEFAULT_OPEN_TIME,
          end_time = DEFAULT_CLOSE_TIME, source = ''auto''\<rparr>]\<rparr>"

section \<open>Candidate ranking\<close>

record emp_cand =
  ec_staff_id :: string
  ec_is_hope :: bool
  ec_assigned_count :: int
  ec_remaining_cap :: int

text \<open>The body of the loop over \<^verbatim>\<open>employees\<close>: \<open>None\<close> is \<^verbatim>\<open>continue\<close>.\<close>

definition employee_candidate ::
  "env \<Rightarrow> state \<Rightarrow> dt_date \<Rightarrow> string list \<Rightarrow> string set \<Rightarrow> string set \<Rightarrow> string \<Rightarrow> emp_cand option" where
  "employee_candidate E st d assigned_today hope_set ng_set sid =
     (if sid \<in> ng_set then None
      else if sid \<in> set assigned_today then None
      else let max_cap = dict_get (max_shifts_per_person E) sid 0;
               used = dict_get (assigned_count st) sid 0;
               remaining = max_cap - used
           in if remaining \<le> 0 then None
              else if weekday d \<in> dict_get (employee_dayoff_map E) sid {} then None
              else Some \<lparr>ec_staff_id = sid, ec_is_hope = (sid \<in> hope_set),
                         ec_assigned_count = used, ec_remaining_cap = remaining\<rparr>)"

definition make_employee_candidates ::
  "env \<Rightarrow> state \<Rightarrow> dt_date \<Rightarrow> string list \<Rightarrow> string set \<Rightarrow> string set \<Rightarrow> emp_cand list" where
  "make_employee_candidates E st d assigned_today hope_set ng_set =
     sort_key (\<lambda>c. (\<not> ec_is_hope c, - ec_remaining_cap c, ec_assigned_count c, ec_staff_id c))
       (List.map_filter (employee_candidate E st d assigned_today hope_set ng_set) (employees E))"

record any_cand =
  ac_staff_id :: string
  ac_is_employee :: bool
  ac_is_hope :: bool
  ac_assigned_count :: int
  ac_pos :: position

definition any_candidate ::
  "env \<Rightarrow> state \<Rightarrow> dt_date \<Rightarrow> string list \<Rightarrow> string set \<Rightarrow> string set \<Rightarrow> string \<Rightarrow> bool
     \<Rightarrow> string \<Rightarrow> any_cand option" where
  "any_candidate E st d assigned_today hope_set ng_set mode sato_is_off sid =
     (if sid \<in> ng_set then None
      else if sid \<in> set assigned_today then None
      else if dict_get (assigned_count st) sid 0 \<ge> dict_get (max_shifts_per_person E) sid 0 then None
      else if sid \<in> set (employees E) \<and> weekday d \<in> dict_get (employee_dayoff_map E) sid {} then None
      else if mode = ''kitchen'' \<and> \<not> is_kitchen_capable_for_day E sid sato_is_off then None
      else if mode \<noteq> ''kitchen'' \<and> mode = ''hall'' \<and> \<not> counts_for_hall E sid then None
      else Some \<lparr>ac_staff_id = sid, ac_is_employee = (sid \<in> set (employees E)),
                 ac_is_hope = (sid \<in> hope_set),
                 ac_assigned_count = dict_get (assigned_count st) sid 0,
                 ac_pos = dict_get (position_map E) sid PosOther\<rparr>)"

definition make_any_candidates ::
  "env \<Rightarrow> state \<Rightarrow> dt_date \<Rightarrow> string list \<Rightarrow> string set \<Rightarrow> string set \<Rightarrow> string \<Rightarrow> bool
     \<Rightarrow> any_cand list" where
  "make_any_candidates E st d assigned_today hope_set ng_set mode sato_is_off =
     (let cand = List.map_filter
                   (any_candidate E st d assigned_today hope_set ng_set mode sato_is_off)
                   (employees E @ parttimers E)
      in if mode = ''kitchen''
         then sort_key (\<lambda>c. (\<not> ac_is_hope c, kitchen_priority_rank E (ac_staff_id c),
                              ac_assigned_count c, ac_staff_id c)) cand
         else if mode = ''hall''
         then sort_key (\<lambda>c. (\<not> ac_is_hope c, ac_is_employee c, ac_assigned_count c,
                              ac_staff_id c)) cand
         else sort_key (\<lambda>c. (\<not> ac_is_hope c, ac_is_employee c, ac_assigned_count c,
                              ac_staff_id c)) cand)"

section \<open>Allocation engine\<close>

text \<open>\<^verbatim>\<open>for _ in range(need)\<close> of \<^verbatim>\<open>assign_employees_for_day\<close>; \<^verbatim>\<open>break\<close> returns.\<close>

fun employee_loop ::
  "env \<Rightarrow> dt_date \<Rightarrow> string \<Rightarrow> string set \<Rightarrow> string set \<Rightarrow> nat \<Rightarrow> string list \<Rightarrow> state
     \<Rightarrow> string list \<times> state" where
  "employee_loop E d day_str hope_set ng_set 0 assigned_today st = (assigned_today, st)"
| "employee_loop E d day_str hope_set ng_set (Suc n) assigned_today st =
     (case make_employee_candidates E st d assigned_today hope_set ng_set of
        [] \<Rightarrow> (assigned_today, st)
      | chosen # _ \<Rightarrow>
          employee_loop E d day_str hope_set ng_set n
            (assigned_today @ [ec_staff_id chosen])
            (record_assignment day_str (ec_staff_id chosen) st))"

definition staff_on :: "string \<Rightarrow> shift_row list \<Rightarrow> string list" where
  "staff_on day_str df = map shift_staff_id (filter (\<lambda>r. date r = day_str) df)"

definition assign_employees_for_day :: "env \<Rightarrow> dt_date \<Rightarrow> int \<Rightarrow> state \<Rightarrow> state" where
  "assign_employees_for_day E d target_emp st =
     (let day_str = strftime d;
          assigned_today = staff_on day_str (existing_shifts_df E) @ staff_on day_str (new_shift_rows st);
          current_emp = int (length (filter (\<lambda>sid. sid \<in> set (employees E)) assigned_today));
          need = max (target_emp - current_emp) 0
      in if need \<le> 0 then st
         else let day_info = dict_get (req_by_date E) day_str ({}, {})
              in snd (employee_loop E d day_str (fst day_info) (snd day_info) (nat need)
                        assigned_today st))"

definition phase1 :: "env \<Rightarrow> dt_date list \<Rightarrow> state \<Rightarrow> state" where
  "phase1 E dates st = foldl (\<lambda>s d. assign_employees_for_day E d 2 s) st dates"

text \<open>
  \<^verbatim>\<open>get_jp_holiday_name\<close> is called but not defined in the source; its binding in the
  module's namespace is a parameter: \<open>None\<close> when the name is unbound, \<open>Some f\<close> when the
  environment supplies the lookup \<open>f\<close> (date to holiday name or nothing). The list
  comprehension looks the name up at its first element.
\<close>

definition truthy :: "string option \<Rightarrow> bool" where
  "truthy v = (case v of None \<Rightarrow> False | Some s \<Rightarrow> s \<noteq> [])"

definition holiday_weekdays ::
  "(dt_date \<Rightarrow> string option) option \<Rightarrow> dt_date list \<Rightarrow> error + dt_date list" where
  "holiday_weekdays get_jp_holiday_name dates =
     (if dates = [] then Inr []
      else case get_jp_holiday_name of
             None \<Rightarrow> Inl (NameError ''get_jp_holiday_name'')
           | Some f \<Rightarrow> Inr (filter (\<lambda>d. truthy (f d) \<and> weekday d \<le> 3) dates))"

definition phase2_dates :: "dt_date list \<Rightarrow> dt_date list \<Rightarrow> dt_date list" where
  "phase2_dates dates hw =
     filter (\<lambda>d. weekday d = 4) dates @ filter (\<lambda>d. weekday d = 5) dates
       @ filter (\<lambda>d. weekday d = 6) dates @ hw"

definition phase2 :: "env \<Rightarrow> dt_date list \<Rightarrow> dt_date list \<Rightarrow> state \<Rightarrow> state" where
  "phase2 E dates hw st = foldl (\<lambda>s d. assign_employees_for_day E d 3 s) st (phase2_dates dates hw)"

definition choose_mode :: "env \<Rightarrow> string list \<Rightarrow> string" where
  "choose_mode E assigned_today =
     (let kitchen_count = int (length (filter (\<lambda>sid. is_kitchen_capable_for_day E sid False) assigned_today));
          hall_count = int (length (filter (counts_for_hall E) assigned_today));
          need_kitchen = max (2 - kitchen_count) 0;
          need_hall = max (3 - hall_count) 0
      in if need_kitchen > 0 then ''kitchen''
         else if need_hall > 0 then ''hall''
         else ''any'')"

fun fill_loop ::
  "env \<Rightarrow> dt_date \<Rightarrow> string \<Rightarrow> string set \<Rightarrow> string set \<Rightarrow> bool \<Rightarrow> nat \<Rightarrow> string list \<Rightarrow> state
     \<Rightarrow> string list \<times> state" where
  "fill_loop E d day_str hope_set ng_set sato_is_off 0 assigned_today st = (assigned_today, st)"
| "fill_loop E d day_str hope_set ng_set sato_is_off (Suc n) assigned_today st =
     (case make_any_candidates E st d assigned_today hope_set ng_set
             (choose_mode E assigned_today) sato_is_off of
        [] \<Rightarrow> (assigned_today, st)
      | chosen # _ \<Rightarrow>
          fill_loop E d day_str hope_set ng_set sato_is_off n
            (assigned_today @ [ac_staff_id chosen])
            (record_assignment day_str (ac_staff_id chosen) st))"

definition required_staff :: "dt_date \<Rightarrow> int" where
  "required_staff d = (if is_weekend d then WEEKEND_REQUIRED_STAFF else WEEKDAY_REQUIRED_STAFF)"

definition fill_day :: "env \<Rightarrow> shift_row list \<Rightarrow> dt_date \<Rightarrow> state \<Rightarrow> state" where
  "fill_day E combined d st =
     (let day_str = strftime d;
          assigned_today = staff_on day_str combined;
          current_count = int (length assigned_today);
          remaining = max (required_staff d - current_count) 0
      in if remaining \<le> 0 then st
         else let day_info = dict_get (req_by_date E) day_str ({}, {});
                  sato_is_off = (EMP_SATO_ID \<notin> set assigned_today)
              in snd (fill_loop E d day_str (fst day_info) (snd day_info) sato_is_off
                        (nat remaining) assigned_today st))"

definition phase3 :: "env \<Rightarrow> dt_date list \<Rightarrow> state \<Rightarrow> state" where
  "phase3 E dates st =
     (let combined = existing_shifts_df E @ new_shift_rows st
      in foldl (\<lambda>s d. fill_day E combined d s) st dates)"

definition auto_assign_shifts_for_month ::
  "(dt_date \<Rightarrow> string option) option \<Rightarrow> staff_df \<Rightarrow> int \<Rightarrow> int \<Rightarrow> request_row list
     \<Rightarrow> shift_row list \<Rightarrow> error + shift_row list" where
  "auto_assign_shifts_for_month get_jp_holiday_name STAFF_DF y m requests_df existing =
     (case date_range_for_month y m of
        Inl e \<Rightarrow> Inl e
      | Inr dates \<Rightarrow>
          let E = closure STAFF_DF requests_df existing;
              st1 = phase1 E dates (initial_state E)
          in (case holiday_weekdays get_jp_holiday_name dates of
                Inl e \<Rightarrow> Inl e
              | Inr hw \<Rightarrow>
                  Inr (new_shift_rows (phase3 E dates (phase2 E dates hw st1)))))"

section \<open>Notions used to state and prove the properties\<close>

text \<open>
  None of the following is part of the program: the sets and the list a day's processing
  works with, the states the engine can reach by recording one eligible worker after
  another, counting rows per worker, saturation of a date, and the concrete tables of the
  worked examples.
\<close>

text \<open>The desired and the blocked set of a date string, as both day procedures read them.\<close>

definition hope_set_of :: "env \<Rightarrow> string \<Rightarrow> string set" where
  "hope_set_of E day_str = fst (dict_get (req_by_date E) day_str ({}, {}))"

definition ng_set_of :: "env \<Rightarrow> string \<Rightarrow> string set" where
  "ng_set_of E day_str = snd (dict_get (req_by_date E) day_str ({}, {}))"

text \<open>
  The list \<^verbatim>\<open>assigned_today\<close> as \<^verbatim>\<open>assign_employees_for_day\<close> builds it: the workers of
  the confirmed rows of the date, then those of the rows added so far in this run.
\<close>

definition today_of :: "env \<Rightarrow> state \<Rightarrow> string \<Rightarrow> string list" where
  "today_of E st day_str =
     staff_on day_str (existing_shifts_df E) @ staff_on day_str (new_shift_rows st)"

text \<open>
  What every candidate builder checks before a worker may be chosen for a date, and the
  states reachable from a state by recording eligible workers on dates of a given list.
\<close>

definition eligible :: "env \<Rightarrow> state \<Rightarrow> dt_date \<Rightarrow> string \<Rightarrow> bool" where
  "eligible E st d sid \<longleftrightarrow>
     sid \<in> set (employees E) \<union> set (parttimers E)
     \<and> sid \<notin> ng_set_of E (strftime d)
     \<and> sid \<notin> set (today_of E st (strftime d))
     \<and> dict_get (assigned_count st) sid 0 < dict_get (max_shifts_per_person E) sid 0
     \<and> (sid \<in> set (employees E) \<longrightarrow> weekday d \<notin> dict_get (employee_dayoff_map E) sid {})"

inductive run :: "env \<Rightarrow> dt_date list \<Rightarrow> state \<Rightarrow> state \<Rightarrow> bool" for E dates st0 where
  run_refl: "run E dates st0 st0"
| run_step: "run E dates st0 st \<Longrightarrow> d \<in> set dates \<Longrightarrow> eligible E st d sid
     \<Longrightarrow> run E dates st0 (record_assignment (strftime d) sid st)"

text \<open>Rows are only ever appended, each for a date of the list being processed.\<close>

definition extends_on :: "string set \<Rightarrow> state \<Rightarrow> state \<Rightarrow> bool" where
  "extends_on D st st' \<longleftrightarrow>
     (\<exists>ext. new_shift_rows st' = new_shift_rows st @ ext \<and> (\<forall>r\<in>set ext. date r \<in> D))"

text \<open>The step of the loop that seeds the counter from the confirmed rows, and row counting.\<close>

definition bump_existing :: "(string \<rightharpoonup> int) \<Rightarrow> shift_row \<Rightarrow> (string \<rightharpoonup> int)" where
  "bump_existing m row = (let sid = shift_staff_id row
                     in (case m sid of None \<Rightarrow> m | Some c \<Rightarrow> m(sid \<mapsto> c + 1)))"

definition occurrences :: "string \<Rightarrow> shift_row list \<Rightarrow> int" where
  "occurrences sid df = int (length (filter (\<lambda>r. shift_staff_id r = sid) df))"

text \<open>The facts recorded with each proposed row, and the (date, worker) pair of a row.\<close>

definition row_ok :: "env \<Rightarrow> dt_date list \<Rightarrow> shift_row \<Rightarrow> bool" where
  "row_ok E dates r \<longleftrightarrow>
     (\<exists>d\<in>set dates. date r = strftime d
        \<and> (shift_staff_id r \<in> set (employees E) \<longrightarrow>
             weekday d \<notin> dict_get (employee_dayoff_map E) (shift_staff_id r) {}))
     \<and> shift_staff_id r \<in> set (employees E) \<union> set (parttimers E)
     \<and> shift_staff_id r \<notin> ng_set_of E (date r)
     \<and> start_time r = DEFAULT_OPEN_TIME \<and> end_time r = DEFAULT_CLOSE_TIME \<and> source r = ''auto''"

definition row_key :: "shift_row \<Rightarrow> string \<times> string" where
  "row_key r = (date r, shift_staff_id r)"

text \<open>
  The tables of a worked run for February 2025: three employees and two part-timers (one
  with a non-numeric cap and a confirmed row), a blocked and a desired entry of the same
  worker on the same date, and one weekday holiday.
\<close>

definition ex_staff :: staff_df where
  "ex_staff = \<lparr>has_desired_shifts_per_month = True, has_desired_shifts_per_week = True, rows =
    [\<lparr>staff_id = ''S001'', role = Shain, position = PosOther, dayoff1 = Num 0, dayoff2 = NaN,
      desired_shifts_per_week = Num 5, desired_shifts_per_month = Num 2\<rparr>,
     \<lparr>staff_id = ''S002'', role = Shain, position = Ryoricho, dayoff1 = NaN, dayoff2 = NaN,
      desired_shifts_per_week = Num 5, desired_shifts_per_month = Num 1\<rparr>,
     \<lparr>staff_id = ''S003'', role = Shain, position = PosOther, dayoff1 = Num 5, dayoff2 = Num 6,
      desired_shifts_per_week = Num 5, desired_shifts_per_month = Num 1\<rparr>,
     \<lparr>staff_id = ''P001'', role = Arubaito, position = AllRound, dayoff1 = Num 5, dayoff2 = NaN,
      desired_shifts_per_week = Num 5, desired_shifts_per_month = Num 2\<rparr>,
     \<lparr>staff_id = ''P002'', role = Arubaito, position = Choriba, dayoff1 = NaN, dayoff2 = NaN,
      desired_shifts_per_week = Num 5, desired_shifts_per_month = NonNumeric\<rparr>]\<rparr>"

definition ex_requests :: "request_row list" where
  "ex_requests =
    [\<lparr>req_date = ''2025-02-01'', req_staff_id = ''S002'', request_type = NG,
      req_start_time = [], req_end_time = [], req_note = []\<rparr>,
     \<lparr>req_date = ''2025-02-01'', req_staff_id = ''S002'', request_type = Kibou,
      req_start_time = ''18:00'', req_end_time = ''22:00'', req_note = []\<rparr>,
     \<lparr>req_date = ''2025-02-03'', req_staff_id = ''P001'', request_type = Kibou,
      req_start_time = ''18:00'', req_end_time = ''22:00'', req_note = []\<rparr>]"

definition ex_existing :: "shift_row list" where
  "ex_existing =
    [\<lparr>date = ''2025-02-01'', shift_staff_id = ''S001'', start_time = ''17:00'',
      end_time = ''23:00'', source = ''manual''\<rparr>,
     \<lparr>date = ''2025-02-01'', shift_staff_id = ''P002'', start_time = ''17:00'',
      end_time = ''23:00'', source = ''manual''\<rparr>]"

definition ex_holiday :: "dt_date \<Rightarrow> string option" where
  "ex_holiday d = (if month d = 2 \<and> day d = 11 then Some ''holiday'' else None)"

definition ex_proposal :: "shift_row list" where
  "ex_proposal =
    [\<lparr>date = ''2025-02-02'', shift_staff_id = ''S002'', start_time = ''17:00'',
      end_time = ''24:00'', source = ''auto''\<rparr>,
     \<lparr>date = ''2025-02-02'', shift_staff_id = ''S001'', start_time = ''17:00'',
      end_time = ''24:00'', source = ''auto''\<rparr>,
     \<lparr>date = ''2025-02-03'', shift_staff_id = ''S003'', start_time = ''17:00'',
      end_time = ''24:00'', source = ''auto''\<rparr>,
     \<lparr>date = ''2025-02-01'', shift_staff_id = ''P001'', start_time = ''17:00'',
      end_time = ''24:00'', source = ''auto''\<rparr>,
     \<lparr>date = ''2025-02-02'', shift_staff_id = ''P001'', start_time = ''17:00'',
      end_time = ''24:00'', source = ''auto''\<rparr>]"

text \<open>A one-worker roster: a head chef whose id is not the hard-coded chef id.\<close>

definition cx_rank_worker :: staff_row where
  "cx_rank_worker = \<lparr>staff_id = ''S010'', role = Shain, position = Ryoricho, dayoff1 = NaN,
     dayoff2 = NaN, desired_shifts_per_week = Num 5, desired_shifts_per_month = Num 20\<rparr>"

definition cx_rank_staff :: staff_df where
  "cx_rank_staff = \<lparr>has_desired_shifts_per_month = True, has_desired_shifts_per_week = True,
     rows = [cx_rank_worker]\<rparr>"

text \<open>
  The sort key in the specification's words, for a selection restricted to core workers:
  not desired today, employment class (the same, core, for every candidate), assigned
  count, id.
\<close>

definition spec_key_core :: "emp_cand \<Rightarrow> bool \<times> bool \<times> int \<times> string" where
  "spec_key_core c = (\<not> ec_is_hope c, True, ec_assigned_count c, ec_staff_id c)"

text \<open>
  Two employees: S001 with cap 5 and no confirmed row, S002 with cap 20 and one confirmed
  row on 10 February 2025.
\<close>

definition cx_order_staff :: staff_df where
  "cx_order_staff = \<lparr>has_desired_shifts_per_month = True, has_desired_shifts_per_week = True,
     rows =
      [\<lparr>staff_id = ''S001'', role = Shain, position = PosOther, dayoff1 = NaN, dayoff2 = NaN,
        desired_shifts_per_week = Num 5, desired_shifts_per_month = Num 5\<rparr>,
       \<lparr>staff_id = ''S002'', role = Shain, position = Ryoricho, dayoff1 = NaN, dayoff2 = NaN,
        desired_shifts_per_week = Num 5, desired_shifts_per_month = Num 20\<rparr>]\<rparr>"

definition cx_order_existing :: "shift_row list" where
  "cx_order_existing =
    [\<lparr>date = ''2025-02-10'', shift_staff_id = ''S002'', start_time = ''17:00'',
      end_time = ''24:00'', source = ''manual''\<rparr>]"

definition cx_order_env :: env where
  "cx_order_env = closure cx_order_staff [] cx_order_existing"

text \<open>
  A later state of a run: more rows at the end, no counter smaller. A date is saturated
  for a target when the target is met or the candidate list of the selection is empty.
\<close>

definition grows :: "state \<Rightarrow> state \<Rightarrow> bool" where
  "grows st st' \<longleftrightarrow>
     (\<exists>ext. new_shift_rows st' = new_shift_rows st @ ext)
     \<and> (\<forall>sid. dict_get (assigned_count st) sid 0 \<le> dict_get (assigned_count st') sid 0)"

definition core_count :: "env \<Rightarrow> string list \<Rightarrow> int" where
  "core_count E today = int (length (filter (\<lambda>sid. sid \<in> set (employees E)) today))"

definition sat_emp :: "env \<Rightarrow> state \<Rightarrow> dt_date \<Rightarrow> int \<Rightarrow> bool" where
  "sat_emp E st d t \<longleftrightarrow>
     t \<le> core_count E (today_of E st (strftime d))
     \<or> make_employee_candidates E st d (today_of E st (strftime d))
          (hope_set_of E (strftime d)) (ng_set_of E (strftime d)) = []"

definition sat_fill :: "env \<Rightarrow> state \<Rightarrow> dt_date \<Rightarrow> bool" where
  "sat_fill E st d \<longleftrightarrow>
     required_staff d \<le> int (length (today_of E st (strftime d)))
     \<or> make_any_candidates E st d (today_of E st (strftime d))
          (hope_set_of E (strftime d)) (ng_set_of E (strftime d))
          (choose_mode E (today_of E st (strftime d)))
          (EMP_SATO_ID \<notin> set (today_of E st (strftime d))) = []"


section \<open>Properties\<close>

subsection \<open>Dates of a month\<close>

lemma digit_inj:
  assumes "digit a = digit b"
  shows "a mod 10 = b mod 10"
proof -
  have ra: "0 \<le> a mod 10" "a mod 10 < 10" and rb: "0 \<le> b mod 10" "b mod 10 < 10" by simp_all
  have d: "distinct ''0123456789''" by simp
  from ra rb have l: "nat (a mod 10) < length ''0123456789''" "nat (b mod 10) < length ''0123456789''"
    by simp_all
  from assms have "''0123456789'' ! nat (a mod 10) = ''0123456789'' ! nat (b mod 10)"
    by (simp add: digit_def)
  with nth_eq_iff_index_eq[OF d l] have "nat (a mod 10) = nat (b mod 10)" by simp
  with ra rb show ?thesis by simp
qed

lemma pad2_inj:
  assumes "pad2 a = pad2 b" "0 \<le> a" "a < 100" "0 \<le> b" "b < 100"
  shows "a = b"
proof -
  from assms(1) have e: "(a div 10) mod 10 = (b div 10) mod 10" "a mod 10 = b mod 10"
    by (auto simp: pad2_def dest: digit_inj)
  from assms(2-5) have "a div 10 < 10" "0 \<le> a div 10" "b div 10 < 10" "0 \<le> b div 10" by auto
  with e(1) have "a div 10 = b div 10" by simp
  moreover have "a = 10 * (a div 10) + a mod 10" "b = 10 * (b div 10) + b mod 10" by simp_all
  ultimately show ?thesis using e(2) by metis
qed

lemma days_in_month_bounds:
  assumes "1 \<le> m" "m \<le> 12"
  shows "28 \<le> days_in_month y m \<and> days_in_month y m \<le> 31"
proof -
  from assms have "m = 1 \<or> m = 2 \<or> m = 3 \<or> m = 4 \<or> m = 5 \<or> m = 6 \<or> m = 7 \<or> m = 8
      \<or> m = 9 \<or> m = 10 \<or> m = 11 \<or> m = 12" by arith
  then show ?thesis by (elim disjE) (simp_all add: days_in_month_def mdays_def)
qed

lemma date_range_ok:
  assumes "1 \<le> y" "y \<le> 9999" "1 \<le> m" "m \<le> 12"
  shows "\<exists>dates. date_range_for_month y m = Inr dates"
  using assms by (simp add: date_range_for_month_def)

lemma date_range_fields:
  assumes "date_range_for_month y m = Inr dates" "d \<in> set dates"
  shows "year d = y \<and> month d = m \<and> 1 \<le> day d \<and> day d \<le> 31"
proof -
  from assms(1) have v: "1 \<le> m" "m \<le> 12"
    and ds: "dates = map (\<lambda>i. \<lparr>year = y, month = m, day = 1 + i\<rparr>) [0..days_in_month y m - 1]"
    by (auto simp: date_range_for_month_def split: if_splits)
  from days_in_month_bounds[OF v, of y] assms(2) show ?thesis unfolding ds by auto
qed

lemma date_range_nonempty:
  assumes "date_range_for_month y m = Inr dates"
  shows "dates \<noteq> []"
proof -
  from assms have v: "1 \<le> m" "m \<le> 12"
    and ds: "dates = map (\<lambda>i. \<lparr>year = y, month = m, day = 1 + i\<rparr>) [0..days_in_month y m - 1]"
    by (auto simp: date_range_for_month_def split: if_splits)
  from days_in_month_bounds[OF v, of y] have "0 \<le> days_in_month y m - 1" by simp
  then have "[0..days_in_month y m - 1] \<noteq> []" by (simp add: upto.simps)
  then show ?thesis unfolding ds by simp
qed

lemma strftime_inj_month:
  assumes "date_range_for_month y m = Inr dates" "d \<in> set dates" "d' \<in> set dates"
    "strftime d = strftime d'"
  shows "d = d'"
proof -
  from date_range_fields[OF assms(1,2)] date_range_fields[OF assms(1,3)]
  have f: "year d = year d'" "month d = month d'" "0 \<le> day d" "day d < 100" "0 \<le> day d'" "day d' < 100"
    by auto
  from assms(4) have "pad2 (day d) = pad2 (day d')"
    by (simp add: strftime_def pad4_def pad2_def)
  from pad2_inj[OF this f(3-6)] f(1,2) show ?thesis by simp
qed

lemma date_range_distinct:
  assumes "date_range_for_month y m = Inr dates"
  shows "distinct dates"
proof -
  from assms have ds: "dates = map (\<lambda>i. \<lparr>year = y, month = m, day = 1 + i\<rparr>) [0..days_in_month y m - 1]"
    by (auto simp: date_range_for_month_def split: if_splits)
  show ?thesis unfolding ds by (simp add: distinct_map inj_on_def)
qed

lemma date_range_distinct_str:
  assumes "date_range_for_month y m = Inr dates"
  shows "distinct (map strftime dates)"
  using date_range_distinct[OF assms] strftime_inj_month[OF assms]
  by (simp add: distinct_map inj_on_def)

lemma weekday_range: "0 \<le> weekday d \<and> weekday d \<le> 6"
  by (simp add: weekday_def)

subsection \<open>Sorting and filtering\<close>

lemma map_filter_set: "set (List.map_filter f xs) = {y. \<exists>x\<in>set xs. f x = Some y}"
  by (force simp: List.map_filter_def image_iff)

lemma sort_key_Nil_iff: "sort_key f xs = [] \<longleftrightarrow> xs = []"
  by (metis set_sort set_empty)

lemma map_filter_Nil_iff: "List.map_filter f xs = [] \<longleftrightarrow> (\<forall>x\<in>set xs. f x = None)"
  by (auto simp: List.map_filter_def filter_empty_conv)

subsection \<open>Reachable engine states\<close>

lemma run_trans:
  assumes "run E dates a b" "run E dates b c"
  shows "run E dates a c"
  using assms(2,1) by (induction rule: run.induct) (auto intro: run.intros)

lemma run_mono_dates:
  assumes "run E ds a b" "set ds \<subseteq> set dates"
  shows "run E dates a b"
  using assms by (induction rule: run.induct) (auto intro: run.intros)

lemma staff_on_append: "staff_on ds (xs @ ys) = staff_on ds xs @ staff_on ds ys"
  by (simp add: staff_on_def)

lemma new_rows_record:
  "new_shift_rows (record_assignment ds sid st) = new_shift_rows st @
     [\<lparr>date = ds, shift_staff_id = sid, start_time = DEFAULT_OPEN_TIME,
       end_time = DEFAULT_CLOSE_TIME, source = ''auto''\<rparr>]"
  by (simp add: record_assignment_def)

lemma today_of_record_same:
  "today_of E (record_assignment ds sid st) ds = today_of E st ds @ [sid]"
  by (simp add: today_of_def new_rows_record staff_on_def)

lemma today_of_record_other:
  "ds' \<noteq> ds \<Longrightarrow> today_of E (record_assignment ds' sid st) ds = today_of E st ds"
  by (simp add: today_of_def new_rows_record staff_on_def)

lemma employee_candidate_id:
  "employee_candidate E st d today hope ng sid = Some c \<Longrightarrow> ec_staff_id c = sid"
  by (auto simp: employee_candidate_def Let_def split: if_splits)

lemma any_candidate_id:
  "any_candidate E st d today hope ng mode sato sid = Some c \<Longrightarrow> ac_staff_id c = sid"
  by (auto simp: any_candidate_def Let_def split: if_splits)

lemma emp_candidates_mem:
  assumes "c \<in> set (make_employee_candidates E st d today hope ng)"
  shows "ec_staff_id c \<in> set (employees E)
     \<and> employee_candidate E st d today hope ng (ec_staff_id c) = Some c"
proof -
  from assms obtain x where x: "x \<in> set (employees E)"
      "employee_candidate E st d today hope ng x = Some c"
    by (auto simp: make_employee_candidates_def map_filter_set)
  from employee_candidate_id[OF x(2)] x show ?thesis by simp
qed

lemma any_candidates_mem:
  assumes "c \<in> set (make_any_candidates E st d today hope ng mode sato)"
  shows "ac_staff_id c \<in> set (employees E) \<union> set (parttimers E)
     \<and> any_candidate E st d today hope ng mode sato (ac_staff_id c) = Some c"
proof -
  from assms obtain x where x: "x \<in> set (employees E @ parttimers E)"
      "any_candidate E st d today hope ng mode sato x = Some c"
    by (auto simp: make_any_candidates_def Let_def map_filter_set split: if_splits)
  from any_candidate_id[OF x(2)] x show ?thesis by simp
qed

lemma employee_candidate_eligible:
  assumes "employee_candidate E st d (today_of E st (strftime d)) hope (ng_set_of E (strftime d)) sid = Some c"
    "sid \<in> set (employees E)"
  shows "eligible E st d sid"
  using assms by (auto simp: employee_candidate_def eligible_def Let_def split: if_splits)

lemma any_candidate_eligible:
  assumes "any_candidate E st d (today_of E st (strftime d)) hope (ng_set_of E (strftime d)) mode sato sid = Some c"
    "sid \<in> set (employees E) \<union> set (parttimers E)"
  shows "eligible E st d sid"
  using assms by (auto simp: any_candidate_def eligible_def Let_def split: if_splits)

lemma employee_loop_run:
  assumes "d \<in> set dates" "today = today_of E st (strftime d)" "ng = ng_set_of E (strftime d)"
  shows "run E dates st (snd (employee_loop E d (strftime d) hope ng n today st))"
  using assms(2)
proof (induction n arbitrary: today st)
  case 0
  show ?case by (simp add: run_refl)
next
  case (Suc n)
  show ?case
  proof (cases "make_employee_candidates E st d today hope ng")
    case Nil
    then show ?thesis by (simp add: run_refl)
  next
    case (Cons c cs)
    let ?sid = "ec_staff_id c"
    let ?st = "record_assignment (strftime d) ?sid st"
    from Cons have "c \<in> set (make_employee_candidates E st d today hope ng)" by simp
    from emp_candidates_mem[OF this] have m: "?sid \<in> set (employees E)"
      "employee_candidate E st d today hope ng ?sid = Some c" by simp_all
    from m(2) have "eligible E st d ?sid"
      unfolding Suc.prems assms(3) by (rule employee_candidate_eligible) (rule m(1))
    then have s1: "run E dates st ?st" by (intro run_step run_refl assms(1))
    have "today @ [?sid] = today_of E ?st (strftime d)"
      by (simp add: Suc.prems today_of_record_same)
    from Suc.IH[OF this] have "run E dates ?st (snd (employee_loop E d (strftime d) hope ng n (today @ [?sid]) ?st))" .
    with s1 show ?thesis using Cons by (simp add: run_trans)
  qed
qed

lemma assign_employees_for_day_run:
  assumes "d \<in> set dates"
  shows "run E dates st (assign_employees_for_day E d target st)"
  using employee_loop_run[OF assms, of "today_of E st (strftime d)" E st "ng_set_of E (strftime d)"]
  by (simp add: assign_employees_for_day_def Let_def run_refl today_of_def ng_set_of_def)

lemma foldl_run:
  assumes "\<And>d st. d \<in> set ds \<Longrightarrow> run E dates st (f st d)"
  shows "run E dates st (foldl f st ds)"
  using assms
proof (induction ds arbitrary: st)
  case Nil
  show ?case by (simp add: run_refl)
next
  case (Cons d ds)
  have "run E dates st (f st d)" by (rule Cons.prems) simp
  moreover have "run E dates (f st d) (foldl f (f st d) ds)"
    by (rule Cons.IH) (simp add: Cons.prems)
  ultimately show ?case by (simp add: run_trans)
qed

lemma phase1_run: "run E dates st (phase1 E dates st)"
  unfolding phase1_def by (rule foldl_run) (rule assign_employees_for_day_run)

lemma phase2_run:
  assumes "set hw \<subseteq> set dates"
  shows "run E dates st (phase2 E dates hw st)"
  unfolding phase2_def
proof (rule foldl_run)
  fix d st assume "d \<in> set (phase2_dates dates hw)"
  with assms have "d \<in> set dates" by (auto simp: phase2_dates_def)
  then show "run E dates st (assign_employees_for_day E d 3 st)"
    by (rule assign_employees_for_day_run)
qed

lemma fill_loop_run:
  assumes "d \<in> set dates" "today = today_of E st (strftime d)" "ng = ng_set_of E (strftime d)"
  shows "run E dates st (snd (fill_loop E d (strftime d) hope ng sato n today st))"
  using assms(2)
proof (induction n arbitrary: today st)
  case 0
  show ?case by (simp add: run_refl)
next
  case (Suc n)
  let ?mode = "choose_mode E today"
  show ?case
  proof (cases "make_any_candidates E st d today hope ng ?mode sato")
    case Nil
    then show ?thesis by (simp add: run_refl)
  next
    case (Cons c cs)
    let ?sid = "ac_staff_id c"
    let ?st = "record_assignment (strftime d) ?sid st"
    from Cons have "c \<in> set (make_any_candidates E st d today hope ng ?mode sato)" by simp
    from any_candidates_mem[OF this] have m: "?sid \<in> set (employees E) \<union> set (parttimers E)"
      "any_candidate E st d today hope ng ?mode sato ?sid = Some c" by simp_all
    from m(2) have "eligible E st d ?sid"
      unfolding Suc.prems assms(3) by (rule any_candidate_eligible) (rule m(1))
    then have s1: "run E dates st ?st" by (intro run_step run_refl assms(1))
    have "today @ [?sid] = today_of E ?st (strftime d)"
      by (simp add: Suc.prems today_of_record_same)
    from Suc.IH[OF this] have "run E dates ?st (snd (fill_loop E d (strftime d) hope ng sato n (today @ [?sid]) ?st))" .
    with s1 show ?thesis using Cons by (simp add: run_trans)
  qed
qed

lemma fill_day_run:
  assumes "d \<in> set dates" "staff_on (strftime d) combined = today_of E st (strftime d)"
  shows "run E dates st (fill_day E combined d st)"
  using fill_loop_run[OF assms(1), of "today_of E st (strftime d)" E st "ng_set_of E (strftime d)"]
  by (simp add: fill_day_def Let_def run_refl assms(2) ng_set_of_def)

lemma extends_on_refl: "extends_on D st st"
  by (simp add: extends_on_def)

lemma extends_on_trans: "extends_on D a b \<Longrightarrow> extends_on D b c \<Longrightarrow> extends_on D a c"
  by (fastforce simp: extends_on_def)

lemma extends_on_mono: "extends_on D a b \<Longrightarrow> D \<subseteq> D' \<Longrightarrow> extends_on D' a b"
  by (fastforce simp: extends_on_def)

lemma run_extends: 
  assumes "run E dates a b"
  shows "extends_on (strftime ` set dates) a b"
  using assms
proof (induction rule: run.induct)
  case run_refl
  show ?case by (rule extends_on_refl)
next
  case (run_step st d sid)
  have "extends_on (strftime ` set dates) st (record_assignment (strftime d) sid st)"
    using run_step.hyps(2) by (simp add: extends_on_def new_rows_record)
  with run_step.IH show ?case by (rule extends_on_trans)
qed

lemma today_of_extends:
  assumes "extends_on D st st'" "ds \<notin> D"
  shows "today_of E st' ds = today_of E st ds"
proof -
  from assms obtain ext where e: "new_shift_rows st' = new_shift_rows st @ ext"
    "\<forall>r\<in>set ext. date r \<noteq> ds" by (auto simp: extends_on_def)
  from e(2) have "filter (\<lambda>r. date r = ds) ext = []" by (simp add: filter_empty_conv)
  then show ?thesis by (simp add: today_of_def e(1) staff_on_def)
qed

lemma phase3_fold_run:
  assumes "set ds \<subseteq> set dates" "distinct (map strftime ds)"
    "\<forall>d\<in>set ds. staff_on (strftime d) combined = today_of E st (strftime d)"
  shows "run E dates st (foldl (\<lambda>s d. fill_day E combined d s) st ds)"
  using assms
proof (induction ds arbitrary: st)
  case Nil
  show ?case by (simp add: run_refl)
next
  case (Cons d ds)
  let ?st = "fill_day E combined d st"
  have dd: "d \<in> set dates" using Cons.prems(1) by simp
  have "staff_on (strftime d) combined = today_of E st (strftime d)" using Cons.prems(3) by simp
  from fill_day_run[OF _ this, of "[d]"] have r1: "run E [d] st ?st" by simp
  from run_extends[OF r1] have ex: "extends_on {strftime d} st ?st" by simp
  have "\<forall>d'\<in>set ds. staff_on (strftime d') combined = today_of E ?st (strftime d')"
  proof
    fix d' assume d': "d' \<in> set ds"
    then have "strftime d' \<in> strftime ` set ds" by (rule imageI)
    moreover from Cons.prems(2) have "strftime d \<notin> strftime ` set ds" by simp
    ultimately have "strftime d' \<notin> {strftime d}" by (metis singletonD)
    from today_of_extends[OF ex this] Cons.prems(3) d'
    show "staff_on (strftime d') combined = today_of E ?st (strftime d')" by simp
  qed
  with Cons.prems have "run E dates ?st (foldl (\<lambda>s d. fill_day E combined d s) ?st ds)"
    by (intro Cons.IH) auto
  moreover from r1 dd have "run E dates st ?st" by (auto intro: run_mono_dates)
  ultimately show ?case by (simp add: run_trans)
qed

lemma phase3_run:
  assumes "distinct (map strftime dates)"
  shows "run E dates st (phase3 E dates st)"
  unfolding phase3_def Let_def
  by (rule phase3_fold_run) (simp_all add: assms today_of_def staff_on_append)

subsection \<open>The indexes built from the input tables\<close>

lemma closure_simps [simp]:
  "employees (closure df rq ex) = build_employees df"
  "parttimers (closure df rq ex) = build_parttimers df"
  "position_map (closure df rq ex) = build_position_map df"
  "employee_dayoff_map (closure df rq ex) = build_employee_dayoff_map df"
  "max_shifts_per_person (closure df rq ex) = build_max_shifts_per_person df"
  "req_by_date (closure df rq ex) = build_req_by_date rq"
  "existing_shifts_df (closure df rq ex) = ex"
  by (simp_all add: closure_def)

lemma foldl_upd_dom:
  "dom (foldl (\<lambda>m r. m(k r \<mapsto> v r)) m0 xs) = dom m0 \<union> k ` set xs"
  by (induction xs arbitrary: m0) auto

lemma foldl_upd_distinct:
  assumes "distinct (map k xs)" "w \<in> set xs"
  shows "foldl (\<lambda>m r. m(k r \<mapsto> v r)) m0 xs (k w) = Some (v w)"
  using assms
proof (induction xs arbitrary: m0 rule: rev_induct)
  case Nil
  then show ?case by simp
next
  case (snoc x xs)
  show ?case
  proof (cases "w = x")
    case True
    then show ?thesis by simp
  next
    case False
    with snoc.prems have w: "w \<in> set xs" and dx: "distinct (map k xs)" by auto
    from w have "k w \<in> k ` set xs" by (rule imageI)
    moreover from snoc.prems(1) have "k x \<notin> k ` set xs" by simp
    ultimately have "k w \<noteq> k x" by metis
    with snoc.IH[OF dx w] show ?thesis by simp
  qed
qed

lemma max_shifts_dom: "dom (build_max_shifts_per_person df) = staff_id ` set (rows df)"
  by (simp add: build_max_shifts_per_person_def foldl_upd_dom)

lemma roster_ids_in_dom:
  "set (build_employees df) \<union> set (build_parttimers df) \<subseteq> dom (build_max_shifts_per_person df)"
  by (auto simp: max_shifts_dom build_employees_def build_parttimers_def)

lemma max_shifts_row:
  assumes "distinct (map staff_id (rows df))" "w \<in> set (rows df)" "has_desired_shifts_per_month df"
  shows "build_max_shifts_per_person df (staff_id w) = Some (to_int_safe (desired_shifts_per_month w) 0)"
  using foldl_upd_distinct[OF assms(1,2)] assms(3) by (simp add: build_max_shifts_per_person_def)

lemma position_map_row:
  assumes "distinct (map staff_id (rows df))" "w \<in> set (rows df)"
  shows "build_position_map df (staff_id w) = Some (position w)"
  using foldl_upd_distinct[OF assms] by (simp add: build_position_map_def)

lemma dayoff_fold_distinct:
  assumes "distinct (map staff_id xs)" "w \<in> set xs" "role w = Shain"
  shows "foldl (\<lambda>m r. if role r \<noteq> Shain then m
                  else m(staff_id r \<mapsto> dayoff_of (dayoff1 r) \<union> dayoff_of (dayoff2 r))) m0 xs (staff_id w)
         = Some (dayoff_of (dayoff1 w) \<union> dayoff_of (dayoff2 w))"
  using assms
proof (induction xs arbitrary: m0 rule: rev_induct)
  case Nil
  then show ?case by simp
next
  case (snoc x xs)
  show ?case
  proof (cases "w = x")
    case True
    with snoc.prems(3) show ?thesis by simp
  next
    case False
    with snoc.prems have w: "w \<in> set xs" and dx: "distinct (map staff_id xs)" by auto
    from w have "staff_id w \<in> staff_id ` set xs" by (rule imageI)
    moreover from snoc.prems(1) have "staff_id x \<notin> staff_id ` set xs" by simp
    ultimately have "staff_id w \<noteq> staff_id x" by metis
    with snoc.IH[OF dx w snoc.prems(3)] show ?thesis by simp
  qed
qed

lemma dayoff_map_row:
  assumes "distinct (map staff_id (rows df))" "w \<in> set (rows df)" "role w = Shain"
  shows "build_employee_dayoff_map df (staff_id w) = Some (dayoff_of (dayoff1 w) \<union> dayoff_of (dayoff2 w))"
  unfolding build_employee_dayoff_map_def by (rule dayoff_fold_distinct[OF assms])

lemma add_request_mono:
  "snd (dict_get m ds ({}, {})) \<subseteq> snd (dict_get (add_request m r) ds ({}, {}))"
  by (auto simp: add_request_def dict_get_def Let_def split: option.splits)

lemma add_request_ng:
  "request_type r = NG \<Longrightarrow> req_staff_id r \<in> snd (dict_get (add_request m r) (req_date r) ({}, {}))"
  by (auto simp: add_request_def dict_get_def Let_def split: option.splits)

lemma req_by_date_ng:
  assumes "r \<in> set rq" "request_type r = NG"
  shows "req_staff_id r \<in> snd (dict_get (build_req_by_date rq) (req_date r) ({}, {}))"
  using assms(1) unfolding build_req_by_date_def
proof (induction rq rule: rev_induct)
  case Nil
  then show ?case by simp
next
  case (snoc x xs)
  show ?case
  proof (cases "r = x")
    case True
    with assms(2) show ?thesis by (simp add: add_request_ng)
  next
    case False
    with snoc have "req_staff_id r \<in> snd (dict_get (foldl add_request Map.empty xs) (req_date r) ({}, {}))"
      by simp
    with add_request_mono show ?thesis by (simp add: subset_iff)
  qed
qed

subsection \<open>The counter\<close>

lemma occurrences_simps [simp]:
  "occurrences sid [] = 0"
  "occurrences sid (xs @ ys) = occurrences sid xs + occurrences sid ys"
  "occurrences sid [r] = (if shift_staff_id r = sid then 1 else 0)"
  by (simp_all add: occurrences_def)

lemma bump_dom: "dom (bump_existing m r) = dom m"
  by (auto simp: bump_existing_def Let_def split: option.splits)

lemma bump_fold_dom: "dom (foldl bump_existing m xs) = dom m"
  by (induction xs arbitrary: m) (simp_all add: bump_dom)

lemma bump_get:
  "dict_get (bump_existing m r) sid 0 =
     dict_get m sid 0 + (if sid \<in> dom m \<and> shift_staff_id r = sid then 1 else 0)"
  by (auto simp: bump_existing_def dict_get_def Let_def split: option.splits)

lemma bump_fold:
  "dict_get (foldl bump_existing m xs) sid 0 =
     dict_get m sid 0 + (if sid \<in> dom m then occurrences sid xs else 0)"
proof (induction xs arbitrary: m)
  case Nil
  show ?case by simp
next
  case (Cons x xs)
  have "occurrences sid (x # xs) = occurrences sid [x] + occurrences sid xs"
    by (simp add: occurrences_def)
  with Cons[of "bump_existing m x"] show ?case
    by (simp add: bump_get bump_dom)
qed

lemma initial_count:
  "dict_get (initial_assigned_count E) sid 0 =
     (if sid \<in> dom (max_shifts_per_person E) then occurrences sid (existing_shifts_df E) else 0)"
proof -
  let ?m0 = "\<lambda>sid. case max_shifts_per_person E sid of None \<Rightarrow> None | Some _ \<Rightarrow> Some (0::int)"
  have d: "dom ?m0 = dom (max_shifts_per_person E)" by (auto split: option.splits)
  have z: "dict_get ?m0 sid 0 = 0" by (simp add: dict_get_def split: option.splits)
  have "initial_assigned_count E = foldl bump_existing ?m0 (existing_shifts_df E)"
    by (simp add: initial_assigned_count_def bump_existing_def[abs_def])
  with bump_fold[of ?m0 "existing_shifts_df E" sid] d z show ?thesis by simp
qed

lemma initial_count_dom: "dom (initial_assigned_count E) = dom (max_shifts_per_person E)"
proof -
  let ?m0 = "\<lambda>sid. case max_shifts_per_person E sid of None \<Rightarrow> None | Some _ \<Rightarrow> Some (0::int)"
  have d: "dom ?m0 = dom (max_shifts_per_person E)" by (auto split: option.splits)
  have "initial_assigned_count E = foldl bump_existing ?m0 (existing_shifts_df E)"
    by (simp add: initial_assigned_count_def bump_existing_def[abs_def])
  with bump_fold_dom[of ?m0 "existing_shifts_df E"] d show ?thesis by simp
qed

lemma count_record:
  "dict_get (assigned_count (record_assignment ds sid st)) sid' 0 =
     dict_get (assigned_count st) sid' 0 + (if sid' = sid then 1 else 0)"
  by (simp add: record_assignment_def dict_get_def)

lemma run_counts:
  assumes "run E dates st0 st" "new_shift_rows st0 = []"
  shows "dict_get (assigned_count st) sid 0 =
           dict_get (assigned_count st0) sid 0 + occurrences sid (new_shift_rows st)
         \<and> (occurrences sid (new_shift_rows st) > 0 \<longrightarrow>
              dict_get (assigned_count st) sid 0 \<le> dict_get (max_shifts_per_person E) sid 0)"
  using assms
proof (induction rule: run.induct)
  case run_refl
  then show ?case by simp
next
  case (run_step st d sid')
  from run_step.hyps(3) have "dict_get (assigned_count st) sid' 0 < dict_get (max_shifts_per_person E) sid' 0"
    by (simp add: eligible_def)
  with run_step.IH[OF run_step.prems] show ?case
    by (auto simp: count_record new_rows_record)
qed

subsection \<open>What holds of every proposed row\<close>

lemma run_row_ok:
  assumes "run E dates st0 st" "\<forall>r\<in>set (new_shift_rows st0). row_ok E dates r"
  shows "\<forall>r\<in>set (new_shift_rows st). row_ok E dates r"
  using assms
proof (induction rule: run.induct)
  case run_refl
  then show ?case by simp
next
  case (run_step st d sid)
  have "row_ok E dates \<lparr>date = strftime d, shift_staff_id = sid, start_time = DEFAULT_OPEN_TIME,
       end_time = DEFAULT_CLOSE_TIME, source = ''auto''\<rparr>"
    using run_step.hyps(2,3) by (auto simp: row_ok_def eligible_def)
  with run_step.IH[OF run_step.prems] show ?case by (simp add: new_rows_record)
qed

lemma today_of_keys:
  "sid \<in> set (today_of E st ds) \<longleftrightarrow>
     (ds, sid) \<in> row_key ` (set (existing_shifts_df E) \<union> set (new_shift_rows st))"
  by (auto simp: today_of_def staff_on_def row_key_def image_iff)

lemma run_distinct:
  assumes "run E dates st0 st" "new_shift_rows st0 = []"
  shows "distinct (map row_key (new_shift_rows st))
     \<and> row_key ` set (new_shift_rows st) \<inter> row_key ` set (existing_shifts_df E) = {}"
  using assms
proof (induction rule: run.induct)
  case run_refl
  then show ?case by simp
next
  case (run_step st d sid)
  from run_step.hyps(3) have "(strftime d, sid) \<notin> row_key ` (set (existing_shifts_df E) \<union> set (new_shift_rows st))"
    by (simp add: eligible_def today_of_keys)
  with run_step.IH[OF run_step.prems] show ?case
    by (auto simp: new_rows_record row_key_def)
qed

subsection \<open>The whole run\<close>

lemma holiday_weekdays_subset:
  "holiday_weekdays hol dates = Inr hw \<Longrightarrow> set hw \<subseteq> set dates"
  by (auto simp: holiday_weekdays_def split: if_splits option.splits)

lemma engine_run:
  assumes "auto_assign_shifts_for_month hol df y m rq ex = Inr rws"
  obtains dates st where "date_range_for_month y m = Inr dates"
    "run (closure df rq ex) dates (initial_state (closure df rq ex)) st"
    "rws = new_shift_rows st"
proof -
  let ?E = "closure df rq ex"
  from assms obtain dates where dr: "date_range_for_month y m = Inr dates"
    by (auto simp: auto_assign_shifts_for_month_def split: sum.splits)
  with assms obtain hw where hw: "holiday_weekdays hol dates = Inr hw"
    and r: "rws = new_shift_rows (phase3 ?E dates (phase2 ?E dates hw (phase1 ?E dates (initial_state ?E))))"
    by (auto simp: auto_assign_shifts_for_month_def Let_def split: sum.splits)
  have "run ?E dates (initial_state ?E) (phase1 ?E dates (initial_state ?E))" by (rule phase1_run)
  moreover have "run ?E dates (phase1 ?E dates (initial_state ?E)) (phase2 ?E dates hw (phase1 ?E dates (initial_state ?E)))"
    by (rule phase2_run[OF holiday_weekdays_subset[OF hw]])
  moreover have "run ?E dates (phase2 ?E dates hw (phase1 ?E dates (initial_state ?E)))
     (phase3 ?E dates (phase2 ?E dates hw (phase1 ?E dates (initial_state ?E))))"
    by (rule phase3_run[OF date_range_distinct_str[OF dr]])
  ultimately have R: "run ?E dates (initial_state ?E) (phase3 ?E dates (phase2 ?E dates hw (phase1 ?E dates (initial_state ?E))))"
    by (blast intro: run_trans)
  show ?thesis by (rule that[OF dr R r])
qed

lemma engine_total:
  assumes "1 \<le> y" "y \<le> 9999" "1 \<le> m" "m \<le> 12"
  shows "\<exists>rws. auto_assign_shifts_for_month (Some f) df y m rq ex = Inr rws"
  using assms
  by (simp add: auto_assign_shifts_for_month_def date_range_for_month_def holiday_weekdays_def Let_def)

lemma emp_candidate_not_today:
  "c \<in> set (make_employee_candidates E st d today hope ng) \<Longrightarrow> ec_staff_id c \<notin> set today"
  by (auto dest!: emp_candidates_mem simp: employee_candidate_def Let_def split: if_splits)

lemma any_candidate_not_today:
  "c \<in> set (make_any_candidates E st d today hope ng mode sato) \<Longrightarrow> ac_staff_id c \<notin> set today"
  by (auto dest!: any_candidates_mem simp: any_candidate_def Let_def split: if_splits)

text \<open>
  Claim C1. The proposal contains no two rows with the same (date, staff id) pair and
  shares no such pair with the confirmed input; in both candidate builders a worker who
  is already in the day's list of assigned workers is never a candidate.
\<close>

theorem no_double_booking:
  assumes "auto_assign_shifts_for_month hol df y m rq ex = Inr rws"
  shows "distinct (map (\<lambda>r. (date r, shift_staff_id r)) rws)
     \<and> (\<forall>r\<in>set rws. \<forall>e\<in>set ex. (date r, shift_staff_id r) \<noteq> (date e, shift_staff_id e))
     \<and> (\<forall>c\<in>set (make_employee_candidates E st d today hope ng). ec_staff_id c \<notin> set today)
     \<and> (\<forall>c\<in>set (make_any_candidates E st d today hope ng mode sato). ac_staff_id c \<notin> set today)"
proof -
  from assms obtain dates s where
    r: "run (closure df rq ex) dates (initial_state (closure df rq ex)) s" "rws = new_shift_rows s"
    by (rule engine_run)
  have "new_shift_rows (initial_state (closure df rq ex)) = []" by (simp add: initial_state_def)
  from run_distinct[OF r(1) this]
  have d: "distinct (map row_key rws)" and i: "row_key ` set rws \<inter> row_key ` set ex = {}"
    by (simp_all add: r(2))
  have k: "row_key = (\<lambda>r. (date r, shift_staff_id r))" by (rule ext) (simp add: row_key_def)
  from d have "distinct (map (\<lambda>r. (date r, shift_staff_id r)) rws)" by (simp add: k)
  moreover from i have "\<forall>r\<in>set rws. \<forall>e\<in>set ex. (date r, shift_staff_id r) \<noteq> (date e, shift_staff_id e)"
    unfolding k by (metis (mono_tags, lifting) disjoint_iff imageI)
  ultimately show ?thesis using emp_candidate_not_today any_candidate_not_today by blast
qed

text \<open>
  Claim C3. A worker with a blocked (NG) entry for a date is never proposed on that date,
  whatever other entries (a desired entry included) exist for the same worker and date.
\<close>

theorem blocked_never_assigned:
  assumes "auto_assign_shifts_for_month hol df y m rq ex = Inr rws"
    "b \<in> set rq" "request_type b = NG"
  shows "\<forall>r\<in>set rws. \<not> (date r = req_date b \<and> shift_staff_id r = req_staff_id b)"
proof -
  let ?E = "closure df rq ex"
  from assms(1) obtain dates s where
    r: "run ?E dates (initial_state ?E) s" "rws = new_shift_rows s"
    by (rule engine_run)
  have "\<forall>r\<in>set (new_shift_rows (initial_state ?E)). row_ok ?E dates r" by (simp add: initial_state_def)
  from run_row_ok[OF r(1) this] have ok: "\<forall>r\<in>set rws. shift_staff_id r \<notin> ng_set_of ?E (date r)"
    by (simp add: r(2) row_ok_def)
  from req_by_date_ng[OF assms(2,3)] have "req_staff_id b \<in> ng_set_of ?E (req_date b)"
    by (simp add: ng_set_of_def)
  with ok show ?thesis by auto
qed

lemma dayoff_cell_weekday: "c = Num (weekday d) \<Longrightarrow> weekday d \<in> dayoff_of c"
  using weekday_range[of d] by (simp add: dayoff_of_def)

lemma closure_dayoff_irrelevant:
  "closure (df\<lparr>rows := map (\<lambda>r. if role r = Shain then r else r\<lparr>dayoff1 := a r, dayoff2 := b r\<rparr>) (rows df)\<rparr>) rq ex
     = closure df rq ex"
proof -
  let ?g = "\<lambda>r. if role r = Shain then r else r\<lparr>dayoff1 := a r, dayoff2 := b r\<rparr>"
  let ?df = "df\<lparr>rows := map ?g (rows df)\<rparr>"
  have sg: "staff_id \<circ> ?g = staff_id" by (rule ext) simp
  have rg: "(\<lambda>r. role r = c) \<circ> ?g = (\<lambda>r. role r = c)" for c by (rule ext) simp
  have r: "rows ?df = map ?g (rows df)" by simp
  have 1: "build_employees ?df = build_employees df"
    unfolding build_employees_def r filter_map map_map sg rg ..
  have 2: "build_parttimers ?df = build_parttimers df"
    unfolding build_parttimers_def r filter_map map_map sg rg ..
  have "(\<lambda>m r. m(staff_id (?g r) \<mapsto> position (?g r))) = (\<lambda>m r. m(staff_id r \<mapsto> position r))"
    by (intro ext) simp
  then have 3: "build_position_map ?df = build_position_map df"
    by (simp add: build_position_map_def foldl_map)
  have "(\<lambda>m r. m(staff_id (?g r) \<mapsto> to_int_safe (desired_shifts_per_month (?g r)) 0))
      = (\<lambda>m r. m(staff_id r \<mapsto> to_int_safe (desired_shifts_per_month r) 0))"
    "(\<lambda>m r. m(staff_id (?g r) \<mapsto> to_int_safe (desired_shifts_per_week (?g r)) 0 * 4))
      = (\<lambda>m r. m(staff_id r \<mapsto> to_int_safe (desired_shifts_per_week r) 0 * 4))"
    "(\<lambda>m r. m(staff_id (?g r) \<mapsto> (12::int))) = (\<lambda>m r. m(staff_id r \<mapsto> 12))"
    by (intro ext, simp)+
  then have 4: "build_max_shifts_per_person ?df = build_max_shifts_per_person df"
    by (simp add: build_max_shifts_per_person_def foldl_map)
  have "(\<lambda>m r. if role (?g r) \<noteq> Shain then m
                  else m(staff_id (?g r) \<mapsto> dayoff_of (dayoff1 (?g r)) \<union> dayoff_of (dayoff2 (?g r))))
      = (\<lambda>m r. if role r \<noteq> Shain then m
                  else m(staff_id r \<mapsto> dayoff_of (dayoff1 r) \<union> dayoff_of (dayoff2 r)))"
    by (intro ext) simp
  then have 5: "build_employee_dayoff_map ?df = build_employee_dayoff_map df"
    by (simp add: build_employee_dayoff_map_def foldl_map)
  show ?thesis by (simp add: closure_def 1 2 3 4 5)
qed

text \<open>
  Claim C4. In a roster with unique ids, an employee (role \<open>Shain\<close>) whose \<^verbatim>\<open>dayoff1\<close> or
  \<^verbatim>\<open>dayoff2\<close> is the weekday index of a date of the target month is never proposed on that
  date. The exclusion reads the day-off columns of employees only: replacing the two cells
  of every other row by anything leaves the proposal unchanged.
\<close>

theorem fixed_day_off_respected:
  assumes "auto_assign_shifts_for_month hol df y m rq ex = Inr rws"
    "distinct (map staff_id (rows df))" "w \<in> set (rows df)" "role w = Shain"
    "date_range_for_month y m = Inr dates" "d \<in> set dates"
    "dayoff1 w = Num (weekday d) \<or> dayoff2 w = Num (weekday d)"
  shows "(\<forall>r\<in>set rws. \<not> (date r = strftime d \<and> shift_staff_id r = staff_id w))
     \<and> auto_assign_shifts_for_month hol
          (df\<lparr>rows := map (\<lambda>r. if role r = Shain then r else r\<lparr>dayoff1 := a r, dayoff2 := b r\<rparr>) (rows df)\<rparr>)
          y m rq ex = Inr rws"
proof -
  let ?E = "closure df rq ex"
  from assms(1) obtain dates' s where
    r: "date_range_for_month y m = Inr dates'" "run ?E dates' (initial_state ?E) s" "rws = new_shift_rows s"
    by (rule engine_run)
  from r(1) assms(5) have dd: "dates' = dates" by simp
  have "\<forall>r\<in>set (new_shift_rows (initial_state ?E)). row_ok ?E dates r" by (simp add: initial_state_def)
  from run_row_ok[OF r(2)[unfolded dd] this] have ok: "\<forall>r\<in>set rws. row_ok ?E dates r"
    by (simp add: r(3))
  from assms(7) have off: "weekday d \<in> dayoff_of (dayoff1 w) \<union> dayoff_of (dayoff2 w)"
    by (auto dest: dayoff_cell_weekday)
  have emp: "staff_id w \<in> set (employees ?E)"
    using assms(3,4) by (auto simp: build_employees_def)
  have dm: "dict_get (employee_dayoff_map ?E) (staff_id w) {} = dayoff_of (dayoff1 w) \<union> dayoff_of (dayoff2 w)"
    by (simp add: dict_get_def dayoff_map_row[OF assms(2,3,4)])
  have "\<not> (date r = strftime d \<and> shift_staff_id r = staff_id w)" if rr: "r \<in> set rws" for r
  proof
    assume c: "date r = strftime d \<and> shift_staff_id r = staff_id w"
    from ok rr have "row_ok ?E dates r" by simp
    then obtain d' where d': "d' \<in> set dates" "date r = strftime d'"
      "shift_staff_id r \<in> set (employees ?E) \<longrightarrow> weekday d' \<notin> dict_get (employee_dayoff_map ?E) (shift_staff_id r) {}"
      by (auto simp: row_ok_def)
    from c d'(2) have "strftime d' = strftime d" by simp
    from strftime_inj_month[OF assms(5) d'(1) assms(6) this] have "d' = d" .
    with d'(3) c emp dm off show False by simp
  qed
  moreover have "auto_assign_shifts_for_month hol
          (df\<lparr>rows := map (\<lambda>r. if role r = Shain then r else r\<lparr>dayoff1 := a r, dayoff2 := b r\<rparr>) (rows df)\<rparr>)
          y m rq ex = auto_assign_shifts_for_month hol df y m rq ex"
    by (cases "date_range_for_month y m")
      (simp_all add: auto_assign_shifts_for_month_def closure_dayoff_irrelevant Let_def)
  ultimately show ?thesis using assms(1) by simp
qed

lemma add_request_times:
  "add_request m (q\<lparr>req_start_time := s, req_end_time := e\<rparr>) = add_request m q"
  by (simp add: add_request_def Let_def)

lemma req_by_date_times:
  "build_req_by_date (map (\<lambda>q. q\<lparr>req_start_time := s q, req_end_time := e q\<rparr>) rq) = build_req_by_date rq"
  by (simp add: build_req_by_date_def foldl_map add_request_times)

text \<open>
  Claim C10. Every proposed row starts at "17:00", ends at "24:00" and has source "auto";
  the time window of the availability entries has no influence on the proposal.
\<close>

theorem proposed_rows_default_times:
  assumes "auto_assign_shifts_for_month hol df y m rq ex = Inr rws"
  shows "(\<forall>r\<in>set rws. start_time r = ''17:00'' \<and> end_time r = ''24:00'' \<and> source r = ''auto'')
     \<and> auto_assign_shifts_for_month hol df y m
          (map (\<lambda>q. q\<lparr>req_start_time := s q, req_end_time := e q\<rparr>) rq) ex = Inr rws"
proof -
  let ?E = "closure df rq ex"
  from assms(1) obtain dates st where
    r: "run ?E dates (initial_state ?E) st" "rws = new_shift_rows st"
    by (rule engine_run)
  have "\<forall>r\<in>set (new_shift_rows (initial_state ?E)). row_ok ?E dates r" by (simp add: initial_state_def)
  from run_row_ok[OF r(1) this] have "\<forall>r\<in>set rws. start_time r = ''17:00'' \<and> end_time r = ''24:00'' \<and> source r = ''auto''"
    by (simp add: r(2) row_ok_def DEFAULT_OPEN_TIME_def DEFAULT_CLOSE_TIME_def)
  moreover have "closure df (map (\<lambda>q. q\<lparr>req_start_time := s q, req_end_time := e q\<rparr>) rq) ex = ?E"
    by (simp add: closure_def req_by_date_times)
  then have "auto_assign_shifts_for_month hol df y m
          (map (\<lambda>q. q\<lparr>req_start_time := s q, req_end_time := e q\<rparr>) rq) ex = auto_assign_shifts_for_month hol df y m rq ex"
    by (cases "date_range_for_month y m") (simp_all add: auto_assign_shifts_for_month_def Let_def)
  ultimately show ?thesis using assms by simp
qed

text \<open>
  Claim C2, amended. The engine never removes a confirmed row, so the bound is on what it
  adds: for a roster with unique ids and the monthly-cap column, the number of rows
  proposed for a worker is at most the cap minus the worker's confirmed rows, and none
  when that difference is not positive. Hence confirmed plus proposed stays within the
  cap whenever the confirmed rows alone do.
\<close>

theorem capacity_respected_amended:
  assumes "auto_assign_shifts_for_month hol df y m rq ex = Inr rws"
    "has_desired_shifts_per_month df" "distinct (map staff_id (rows df))" "w \<in> set (rows df)"
  shows "int (length (filter (\<lambda>r. shift_staff_id r = staff_id w) rws))
     \<le> max 0 (to_int_safe (desired_shifts_per_month w) 0
                - int (length (filter (\<lambda>r. shift_staff_id r = staff_id w) ex)))"
proof -
  let ?E = "closure df rq ex"
  let ?sid = "staff_id w"
  from assms(1) obtain dates s where
    r: "run ?E dates (initial_state ?E) s" "rws = new_shift_rows s"
    by (rule engine_run)
  have n: "new_shift_rows (initial_state ?E) = []" by (simp add: initial_state_def)
  have cap: "dict_get (max_shifts_per_person ?E) ?sid 0 = to_int_safe (desired_shifts_per_month w) 0"
    by (simp add: dict_get_def max_shifts_row[OF assms(3,4,2)])
  have "?sid \<in> dom (max_shifts_per_person ?E)" using assms(4) by (simp add: max_shifts_dom)
  then have c0: "dict_get (assigned_count (initial_state ?E)) ?sid 0 = occurrences ?sid ex"
    by (simp add: initial_state_def initial_count)
  from run_counts[OF r(1) n, of ?sid] c0 cap
  have "occurrences ?sid rws > 0 \<longrightarrow> occurrences ?sid ex + occurrences ?sid rws \<le> to_int_safe (desired_shifts_per_month w) 0"
    unfolding r(2) by auto
  moreover have "0 \<le> occurrences ?sid rws" by (simp add: occurrences_def)
  ultimately show ?thesis by (auto simp: occurrences_def max_def)
qed

text \<open>
  Claim C9. For a valid year and month, a run in which \<^verbatim>\<open>get_jp_holiday_name\<close> is
  unbound fails with the name error; a run returns a proposal only when the environment
  binds the name, and then it always does.
\<close>

theorem undefined_holiday_lookup:
  assumes "1 \<le> y" "y \<le> 9999" "1 \<le> m" "m \<le> 12"
  shows "auto_assign_shifts_for_month None df y m rq ex = Inl (NameError ''get_jp_holiday_name'')
     \<and> (\<exists>rws. auto_assign_shifts_for_month (Some f) df y m rq ex = Inr rws)
     \<and> (\<forall>hol rws. auto_assign_shifts_for_month hol df y m rq ex = Inr rws \<longrightarrow> hol \<noteq> None)"
proof -
  from date_range_ok[OF assms] obtain dates where d: "date_range_for_month y m = Inr dates" by blast
  from date_range_nonempty[OF d] have ne: "dates \<noteq> []" .
  have 1: "auto_assign_shifts_for_month None df y m rq ex = Inl (NameError ''get_jp_holiday_name'')"
    by (simp add: auto_assign_shifts_for_month_def d holiday_weekdays_def ne Let_def)
  from engine_total[OF assms] have 2: "\<exists>rws. auto_assign_shifts_for_month (Some f) df y m rq ex = Inr rws" .
  have 3: "\<forall>hol rws. auto_assign_shifts_for_month hol df y m rq ex = Inr rws \<longrightarrow> hol \<noteq> None"
  proof (intro allI impI)
    fix hol rws
    assume a: "auto_assign_shifts_for_month hol df y m rq ex = Inr rws"
    show "hol \<noteq> None"
    proof
      assume "hol = None"
      with a 1 show False by simp
    qed
  qed
  from 1 2 3 show ?thesis by blast
qed

text \<open>
  Claim C8 as stated fails: a worker whose position is head chef but whose id is not
  "S002" has rank 9, not 0.
\<close>

theorem kitchen_rank_counterexample:
  "position cx_rank_worker = Ryoricho
   \<and> kitchen_priority_rank (closure cx_rank_staff [] []) (staff_id cx_rank_worker) = 9"
  by (simp add: cx_rank_worker_def cx_rank_staff_def closure_def kitchen_priority_rank_def
      build_position_map_def dict_get_def CHEF_ID_def MANAGER_ID_def)

text \<open>
  Claim C8, amended. In a roster with unique ids the rank is 0 for the worker with id
  "S002", else 1 for the kitchen-only position, else 2 for the all-round position, else 3
  for the worker with id "S001", else 9: chef and manager are recognised by id, the two
  part-timer grades by position.
\<close>

theorem kitchen_rank_amended:
  assumes "distinct (map staff_id (rows df))" "w \<in> set (rows df)"
  shows "kitchen_priority_rank (closure df rq ex) (staff_id w) =
     (if staff_id w = ''S002'' then 0
      else if position w = Choriba then 1
      else if position w = AllRound then 2
      else if staff_id w = ''S001'' then 3
      else 9)"
  by (simp add: kitchen_priority_rank_def dict_get_def position_map_row[OF assms]
      CHEF_ID_def MANAGER_ID_def)

theorem kitchen_rank_amended_witness:
  "kitchen_priority_rank (closure ex_staff ex_requests ex_existing) ''P001'' = 2"
proof -
  have d: "distinct (map staff_id (rows ex_staff))" by (simp add: ex_staff_def)
  have w: "\<lparr>staff_id = ''P001'', role = Arubaito, position = AllRound, dayoff1 = Num 5, dayoff2 = NaN,
      desired_shifts_per_week = Num 5, desired_shifts_per_month = Num 2\<rparr> \<in> set (rows ex_staff)"
    by (simp add: ex_staff_def)
  from kitchen_rank_amended[OF d w, of ex_requests ex_existing] show ?thesis by simp
qed

text \<open>
  Claim C6 as stated fails in phases 1 and 2: at the first selection of a run whose
  roster has S001 (cap 5, no confirmed row) and S002 (cap 20, one confirmed row), the
  employee candidates are ordered S002, S001, which is not ascending in the key
  (not desired, employment class, assigned count, id).
\<close>

theorem ordering_counterexample:
  "map ec_staff_id (make_employee_candidates cx_order_env (initial_state cx_order_env)
        \<lparr>year = 2025, month = 2, day = 1\<rparr> [] {} {}) = [''S002'', ''S001'']
   \<and> \<not> sorted (map spec_key_core (make_employee_candidates cx_order_env (initial_state cx_order_env)
        \<lparr>year = 2025, month = 2, day = 1\<rparr> [] {} {}))"
  by code_simp

lemma any_candidate_fields:
  assumes "any_candidate E st d today hope ng mode sato sid = Some c"
  shows "ac_is_hope c = (sid \<in> hope) \<and> ac_is_employee c = (sid \<in> set (employees E))
     \<and> ac_assigned_count c = dict_get (assigned_count st) sid 0"
proof -
  from assms have "c = \<lparr>ac_staff_id = sid, ac_is_employee = (sid \<in> set (employees E)),
                 ac_is_hope = (sid \<in> hope),
                 ac_assigned_count = dict_get (assigned_count st) sid 0,
                 ac_pos = dict_get (position_map E) sid PosOther\<rparr>"
    by (simp add: any_candidate_def split: if_splits)
  then show ?thesis by simp
qed

lemma employee_candidate_fields:
  assumes "employee_candidate E st d today hope ng sid = Some c"
  shows "ec_is_hope c = (sid \<in> hope) \<and> ec_assigned_count c = dict_get (assigned_count st) sid 0
     \<and> ec_remaining_cap c = dict_get (max_shifts_per_person E) sid 0 - dict_get (assigned_count st) sid 0"
proof -
  from assms have "c = \<lparr>ec_staff_id = sid, ec_is_hope = (sid \<in> hope),
                         ec_assigned_count = dict_get (assigned_count st) sid 0,
                         ec_remaining_cap = dict_get (max_shifts_per_person E) sid 0
                            - dict_get (assigned_count st) sid 0\<rparr>"
    by (simp add: employee_candidate_def Let_def split: if_splits)
  then show ?thesis by simp
qed

text \<open>
  Claim C6, amended. The candidates of phase 3 are ascending in (not desired, kitchen
  rank, assigned count, id) in kitchen mode and in (not desired, is employee, assigned
  count, id) in every other mode; the employee candidates of phases 1 and 2 are ascending
  in (not desired, remaining capacity descending, assigned count, id). The key fields are
  the worker's membership in the day's desired set, membership in the employee list, the
  current counter, and cap minus counter.
\<close>

theorem candidate_ordering_amended:
  "sorted (map (\<lambda>c. (\<not> ac_is_hope c, kitchen_priority_rank E (ac_staff_id c), ac_assigned_count c, ac_staff_id c))
      (make_any_candidates E st d today hope ng ''kitchen'' sato))
   \<and> (mode \<noteq> ''kitchen'' \<longrightarrow>
        sorted (map (\<lambda>c. (\<not> ac_is_hope c, ac_is_employee c, ac_assigned_count c, ac_staff_id c))
          (make_any_candidates E st d today hope ng mode sato)))
   \<and> sorted (map (\<lambda>c. (\<not> ec_is_hope c, - ec_remaining_cap c, ec_assigned_count c, ec_staff_id c))
        (make_employee_candidates E st d today hope ng))
   \<and> (\<forall>c\<in>set (make_any_candidates E st d today hope ng mode sato).
        ac_is_hope c = (ac_staff_id c \<in> hope)
        \<and> ac_is_employee c = (ac_staff_id c \<in> set (employees E))
        \<and> ac_assigned_count c = dict_get (assigned_count st) (ac_staff_id c) 0)
   \<and> (\<forall>c\<in>set (make_employee_candidates E st d today hope ng).
        ec_is_hope c = (ec_staff_id c \<in> hope)
        \<and> ec_assigned_count c = dict_get (assigned_count st) (ec_staff_id c) 0
        \<and> ec_remaining_cap c = dict_get (max_shifts_per_person E) (ec_staff_id c) 0
                                 - dict_get (assigned_count st) (ec_staff_id c) 0)"
proof -
  have 1: "sorted (map (\<lambda>c. (\<not> ac_is_hope c, kitchen_priority_rank E (ac_staff_id c), ac_assigned_count c, ac_staff_id c))
      (make_any_candidates E st d today hope ng ''kitchen'' sato))"
    by (simp add: make_any_candidates_def Let_def sorted_sort_key)
  have 2: "mode \<noteq> ''kitchen'' \<longrightarrow>
        sorted (map (\<lambda>c. (\<not> ac_is_hope c, ac_is_employee c, ac_assigned_count c, ac_staff_id c))
          (make_any_candidates E st d today hope ng mode sato))"
    by (simp add: make_any_candidates_def Let_def sorted_sort_key)
  have 3: "sorted (map (\<lambda>c. (\<not> ec_is_hope c, - ec_remaining_cap c, ec_assigned_count c, ec_staff_id c))
        (make_employee_candidates E st d today hope ng))"
    by (simp add: make_employee_candidates_def sorted_sort_key)
  have 4: "\<forall>c\<in>set (make_any_candidates E st d today hope ng mode sato).
        ac_is_hope c = (ac_staff_id c \<in> hope)
        \<and> ac_is_employee c = (ac_staff_id c \<in> set (employees E))
        \<and> ac_assigned_count c = dict_get (assigned_count st) (ac_staff_id c) 0"
    using any_candidates_mem any_candidate_fields by blast
  have 5: "\<forall>c\<in>set (make_employee_candidates E st d today hope ng).
        ec_is_hope c = (ec_staff_id c \<in> hope)
        \<and> ec_assigned_count c = dict_get (assigned_count st) (ec_staff_id c) 0
        \<and> ec_remaining_cap c = dict_get (max_shifts_per_person E) (ec_staff_id c) 0
                                 - dict_get (assigned_count st) (ec_staff_id c) 0"
    using emp_candidates_mem employee_candidate_fields by blast
  from 1 2 3 4 5 show ?thesis by blast
qed


lemma employee_loop_length:
  "length (new_shift_rows (snd (employee_loop E d ds hope ng n today st)))
     \<le> length (new_shift_rows st) + n"
proof (induction n arbitrary: today st)
  case 0
  show ?case by simp
next
  case (Suc n)
  show ?case
  proof (cases "make_employee_candidates E st d today hope ng")
    case Nil
    then show ?thesis by simp
  next
    case (Cons c cs)
    from Suc[of "today @ [ec_staff_id c]" "record_assignment ds (ec_staff_id c) st"] Cons
    show ?thesis by (simp add: new_rows_record)
  qed
qed

lemma fill_loop_length:
  "length (new_shift_rows (snd (fill_loop E d ds hope ng sato n today st)))
     \<le> length (new_shift_rows st) + n"
proof (induction n arbitrary: today st)
  case 0
  show ?case by simp
next
  case (Suc n)
  show ?case
  proof (cases "make_any_candidates E st d today hope ng (choose_mode E today) sato")
    case Nil
    then show ?thesis by simp
  next
    case (Cons c cs)
    from Suc[of "today @ [ac_staff_id c]" "record_assignment ds (ac_staff_id c) st"] Cons
    show ?thesis by (simp add: new_rows_record)
  qed
qed

lemma assign_employees_length:
  "length (new_shift_rows (assign_employees_for_day E d t st))
     \<le> length (new_shift_rows st)
        + nat (t - int (length (filter (\<lambda>sid. sid \<in> set (employees E))
             (staff_on (strftime d) (existing_shifts_df E) @ staff_on (strftime d) (new_shift_rows st)))))"
  using employee_loop_length
  by (simp add: assign_employees_for_day_def Let_def max_def)

lemma fill_day_length:
  "length (new_shift_rows (fill_day E combined d st))
     \<le> length (new_shift_rows st)
        + nat (required_staff d - int (length (staff_on (strftime d) combined)))"
  using fill_loop_length
  by (simp add: fill_day_def Let_def max_def)

lemma choose_mode_kitchen:
  "choose_mode E today = ''kitchen'' \<longleftrightarrow>
     length (filter (\<lambda>sid. is_kitchen_capable_for_day E sid False) today) < 2"
  by (auto simp: choose_mode_def Let_def max_def)




subsection \<open>Running the engine again on its own proposal\<close>

lemma grows_refl: "grows st st"
  by (simp add: grows_def)

lemma grows_trans: "grows a b \<Longrightarrow> grows b c \<Longrightarrow> grows a c"
  unfolding grows_def by (metis append.assoc order_trans)

lemma grows_record: "grows st (record_assignment ds sid st)"
  by (simp add: grows_def new_rows_record count_record)

lemma run_grows:
  assumes "run E dates a b"
  shows "grows a b"
  using assms
  by (induction rule: run.induct) (auto intro: grows_refl grows_trans grows_record)

lemma grows_today:
  assumes "grows st st'"
  shows "\<exists>more. today_of E st' ds = today_of E st ds @ more"
proof -
  from assms obtain ext where "new_shift_rows st' = new_shift_rows st @ ext"
    by (auto simp: grows_def)
  then show ?thesis by (simp add: today_of_def staff_on_append)
qed

lemma employee_candidate_None_mono:
  assumes "employee_candidate E st d today hope ng sid = None" "set today \<subseteq> set today'"
    "dict_get (assigned_count st) sid 0 \<le> dict_get (assigned_count st') sid 0"
  shows "employee_candidate E st' d today' hope ng sid = None"
  using assms by (auto simp: employee_candidate_def Let_def split: if_splits)

lemma any_candidate_None_mono:
  assumes "any_candidate E st d today hope ng mode sato sid = None" "set today \<subseteq> set today'"
    "dict_get (assigned_count st) sid 0 \<le> dict_get (assigned_count st') sid 0"
  shows "any_candidate E st' d today' hope ng mode sato sid = None"
  using assms by (auto simp: any_candidate_def Let_def split: if_splits)

lemma emp_cands_Nil_iff:
  "make_employee_candidates E st d today hope ng = [] \<longleftrightarrow>
     (\<forall>sid\<in>set (employees E). employee_candidate E st d today hope ng sid = None)"
  by (simp add: make_employee_candidates_def sort_key_Nil_iff map_filter_Nil_iff)

lemma any_cands_Nil_iff:
  "make_any_candidates E st d today hope ng mode sato = [] \<longleftrightarrow>
     (\<forall>sid\<in>set (employees E) \<union> set (parttimers E).
        any_candidate E st d today hope ng mode sato sid = None)"
  by (simp add: make_any_candidates_def Let_def sort_key_Nil_iff map_filter_Nil_iff)

lemma emp_cands_Nil_mono:
  assumes "make_employee_candidates E st d today hope ng = []" "set today \<subseteq> set today'"
    "\<forall>sid. dict_get (assigned_count st) sid 0 \<le> dict_get (assigned_count st') sid 0"
  shows "make_employee_candidates E st' d today' hope ng = []"
  using assms employee_candidate_None_mono unfolding emp_cands_Nil_iff by blast

lemma any_cands_Nil_mono:
  assumes "make_any_candidates E st d today hope ng mode sato = []" "set today \<subseteq> set today'"
    "\<forall>sid. dict_get (assigned_count st) sid 0 \<le> dict_get (assigned_count st') sid 0"
  shows "make_any_candidates E st' d today' hope ng mode sato = []"
  using assms any_candidate_None_mono unfolding any_cands_Nil_iff by blast

lemma any_cands_sato:
  assumes "mode \<noteq> ''kitchen''"
  shows "make_any_candidates E st d today hope ng mode sato
       = make_any_candidates E st d today hope ng mode sato'"
proof -
  have "any_candidate E st d today hope ng mode sato = any_candidate E st d today hope ng mode sato'"
    using assms by (intro ext) (simp add: any_candidate_def)
  then show ?thesis by (simp add: make_any_candidates_def)
qed

lemma core_count_append: "core_count E (xs @ ys) = core_count E xs + core_count E ys"
  by (simp add: core_count_def)

lemma core_count_nonneg: "0 \<le> core_count E xs"
  by (simp add: core_count_def)

lemma sat_emp_mono:
  assumes "sat_emp E st d t" "grows st st'"
  shows "sat_emp E st' d t"
proof -
  from grows_today[OF assms(2)] obtain more where
    m: "today_of E st' (strftime d) = today_of E st (strftime d) @ more" by blast
  from assms(2) have c: "\<forall>sid. dict_get (assigned_count st) sid 0 \<le> dict_get (assigned_count st') sid 0"
    by (simp add: grows_def)
  from assms(1) show ?thesis unfolding sat_emp_def
  proof
    assume "t \<le> core_count E (today_of E st (strftime d))"
    with core_count_nonneg[of E more] have "t \<le> core_count E (today_of E st' (strftime d))"
      by (simp add: m core_count_append)
    then show "t \<le> core_count E (today_of E st' (strftime d))
      \<or> make_employee_candidates E st' d (today_of E st' (strftime d))
          (hope_set_of E (strftime d)) (ng_set_of E (strftime d)) = []" ..
  next
    assume "make_employee_candidates E st d (today_of E st (strftime d))
          (hope_set_of E (strftime d)) (ng_set_of E (strftime d)) = []"
    from emp_cands_Nil_mono[OF this _ c, of "today_of E st' (strftime d)"]
    have "make_employee_candidates E st' d (today_of E st' (strftime d))
          (hope_set_of E (strftime d)) (ng_set_of E (strftime d)) = []" by (simp add: m)
    then show "t \<le> core_count E (today_of E st' (strftime d))
      \<or> make_employee_candidates E st' d (today_of E st' (strftime d))
          (hope_set_of E (strftime d)) (ng_set_of E (strftime d)) = []" ..
  qed
qed

lemma sat_fill_mono:
  assumes "sat_fill E st d" "grows st st'"
    "today_of E st' (strftime d) = today_of E st (strftime d)"
  shows "sat_fill E st' d"
proof -
  from assms(2) have c: "\<forall>sid. dict_get (assigned_count st) sid 0 \<le> dict_get (assigned_count st') sid 0"
    by (simp add: grows_def)
  from assms(1) show ?thesis unfolding sat_fill_def assms(3)
    using any_cands_Nil_mono[OF _ subset_refl c] by blast
qed

lemma employee_loop_sat:
  assumes "today = today_of E st ds"
  shows "fst (employee_loop E d ds hope ng n today st)
           = today_of E (snd (employee_loop E d ds hope ng n today st)) ds
     \<and> (make_employee_candidates E (snd (employee_loop E d ds hope ng n today st)) d
           (fst (employee_loop E d ds hope ng n today st)) hope ng = []
        \<or> core_count E today + int n \<le> core_count E (fst (employee_loop E d ds hope ng n today st)))"
  using assms
proof (induction n arbitrary: today st)
  case 0
  then show ?case by simp
next
  case (Suc n)
  show ?case
  proof (cases "make_employee_candidates E st d today hope ng")
    case Nil
    then show ?thesis using Suc.prems by simp
  next
    case (Cons c cs)
    let ?sid = "ec_staff_id c"
    let ?st = "record_assignment ds ?sid st"
    let ?r = "employee_loop E d ds hope ng n (today @ [?sid]) ?st"
    from Cons have "c \<in> set (make_employee_candidates E st d today hope ng)" by simp
    from emp_candidates_mem[OF this] have "?sid \<in> set (employees E)" by simp
    then have cc: "core_count E (today @ [?sid]) = core_count E today + 1"
      by (simp add: core_count_def)
    have "today @ [?sid] = today_of E ?st ds" by (simp add: Suc.prems today_of_record_same)
    from Suc.IH[OF this]
    have A: "fst ?r = today_of E (snd ?r) ds"
      and B: "make_employee_candidates E (snd ?r) d (fst ?r) hope ng = []
          \<or> core_count E (today @ [?sid]) + int n \<le> core_count E (fst ?r)" by blast+
    from B cc have B': "make_employee_candidates E (snd ?r) d (fst ?r) hope ng = []
          \<or> core_count E today + int (Suc n) \<le> core_count E (fst ?r)" by auto
    have e: "employee_loop E d ds hope ng (Suc n) today st = ?r" using Cons by simp
    show ?thesis unfolding e using A B' by blast
  qed
qed

lemma assign_employees_sat: "sat_emp E (assign_employees_for_day E d t st) d t"
proof -
  let ?ds = "strftime d"
  let ?today = "today_of E st ?ds"
  show ?thesis
  proof (cases "t \<le> core_count E ?today")
    case True
    then have "assign_employees_for_day E d t st = st"
      by (simp add: assign_employees_for_day_def Let_def core_count_def today_of_def)
    with True show ?thesis by (simp add: sat_emp_def)
  next
    case False
    let ?n = "nat (t - core_count E ?today)"
    let ?r = "employee_loop E d ?ds (hope_set_of E ?ds) (ng_set_of E ?ds) ?n ?today st"
    from False have a: "assign_employees_for_day E d t st = snd ?r"
      by (simp add: assign_employees_for_day_def Let_def core_count_def today_of_def
          hope_set_of_def ng_set_of_def max_def)
    from False have "core_count E ?today + int ?n = t" by simp
    with employee_loop_sat[OF refl, where E = E and st = st and ds = ?ds and d = d
        and hope = "hope_set_of E ?ds" and ng = "ng_set_of E ?ds" and n = ?n]
    show ?thesis unfolding sat_emp_def a by auto
  qed
qed

lemma choose_mode_kitchen_prefix:
  assumes "choose_mode E (today @ [sid]) = ''kitchen''"
  shows "choose_mode E today = ''kitchen''"
  using assms unfolding choose_mode_kitchen by (simp split: if_splits)

lemma kitchen_capable_not_sato: "is_kitchen_capable_for_day E sid sato \<Longrightarrow> sid \<noteq> EMP_SATO_ID"
  by (simp add: is_kitchen_capable_for_day_def split: if_splits)

lemma any_candidate_kitchen:
  "any_candidate E st d today hope ng ''kitchen'' sato sid = Some c
     \<Longrightarrow> is_kitchen_capable_for_day E sid sato"
  by (simp add: any_candidate_def split: if_splits)

lemma fill_loop_sat:
  assumes "today = today_of E st ds"
    "choose_mode E today = ''kitchen'' \<longrightarrow> (EMP_SATO_ID \<notin> set today) = sato"
  shows "fst (fill_loop E d ds hope ng sato n today st)
           = today_of E (snd (fill_loop E d ds hope ng sato n today st)) ds
     \<and> (choose_mode E (fst (fill_loop E d ds hope ng sato n today st)) = ''kitchen'' \<longrightarrow>
          (EMP_SATO_ID \<notin> set (fst (fill_loop E d ds hope ng sato n today st))) = sato)
     \<and> (make_any_candidates E (snd (fill_loop E d ds hope ng sato n today st)) d
           (fst (fill_loop E d ds hope ng sato n today st)) hope ng
           (choose_mode E (fst (fill_loop E d ds hope ng sato n today st))) sato = []
        \<or> int (length today) + int n \<le> int (length (fst (fill_loop E d ds hope ng sato n today st))))"
  using assms
proof (induction n arbitrary: today st)
  case 0
  then show ?case by simp
next
  case (Suc n)
  let ?mode = "choose_mode E today"
  show ?case
  proof (cases "make_any_candidates E st d today hope ng ?mode sato")
    case Nil
    then have e: "fill_loop E d ds hope ng sato (Suc n) today st = (today, st)" by simp
    show ?thesis unfolding e using Nil Suc.prems by auto
  next
    case (Cons c cs)
    let ?sid = "ac_staff_id c"
    let ?st = "record_assignment ds ?sid st"
    let ?r = "fill_loop E d ds hope ng sato n (today @ [?sid]) ?st"
    from Cons have "c \<in> set (make_any_candidates E st d today hope ng ?mode sato)" by simp
    from any_candidates_mem[OF this]
    have m: "any_candidate E st d today hope ng ?mode sato ?sid = Some c" by simp
    have t: "today @ [?sid] = today_of E ?st ds" by (simp add: Suc.prems(1) today_of_record_same)
    have j: "choose_mode E (today @ [?sid]) = ''kitchen'' \<longrightarrow>
        (EMP_SATO_ID \<notin> set (today @ [?sid])) = sato"
    proof
      assume k: "choose_mode E (today @ [?sid]) = ''kitchen''"
      from choose_mode_kitchen_prefix[OF k] have k0: "?mode = ''kitchen''" .
      with Suc.prems(2) have s0: "(EMP_SATO_ID \<notin> set today) = sato" by simp
      from m k0 have "is_kitchen_capable_for_day E ?sid sato"
        by (auto dest: any_candidate_kitchen)
      then have "?sid \<noteq> EMP_SATO_ID" by (rule kitchen_capable_not_sato)
      with s0 show "(EMP_SATO_ID \<notin> set (today @ [?sid])) = sato" by auto
    qed
    from Suc.IH[OF t j]
    have A: "fst ?r = today_of E (snd ?r) ds"
      and J: "choose_mode E (fst ?r) = ''kitchen'' \<longrightarrow> (EMP_SATO_ID \<notin> set (fst ?r)) = sato"
      and B: "make_any_candidates E (snd ?r) d (fst ?r) hope ng (choose_mode E (fst ?r)) sato = []
          \<or> int (length (today @ [?sid])) + int n \<le> int (length (fst ?r))" by blast+
    from B have B': "make_any_candidates E (snd ?r) d (fst ?r) hope ng (choose_mode E (fst ?r)) sato = []
          \<or> int (length today) + int (Suc n) \<le> int (length (fst ?r))" by auto
    have e: "fill_loop E d ds hope ng sato (Suc n) today st = ?r" using Cons by simp
    show ?thesis unfolding e using A J B' by blast
  qed
qed

lemma fill_day_sat:
  assumes "staff_on (strftime d) combined = today_of E st (strftime d)"
  shows "sat_fill E (fill_day E combined d st) d"
proof -
  let ?ds = "strftime d"
  let ?today = "today_of E st ?ds"
  show ?thesis
  proof (cases "required_staff d \<le> int (length ?today)")
    case True
    then have "fill_day E combined d st = st"
      by (simp add: fill_day_def Let_def assms)
    with True show ?thesis by (simp add: sat_fill_def)
  next
    case False
    let ?n = "nat (required_staff d - int (length ?today))"
    let ?sato = "EMP_SATO_ID \<notin> set ?today"
    let ?r = "fill_loop E d ?ds (hope_set_of E ?ds) (ng_set_of E ?ds) ?sato ?n ?today st"
    from False have a: "fill_day E combined d st = snd ?r"
      by (simp add: fill_day_def Let_def assms hope_set_of_def ng_set_of_def max_def)
    from False have n: "int (length ?today) + int ?n = required_staff d" by simp
    from fill_loop_sat[OF refl, where E = E and st = st and ds = ?ds and d = d and sato = ?sato
        and hope = "hope_set_of E ?ds" and ng = "ng_set_of E ?ds" and n = ?n]
    have A: "fst ?r = today_of E (snd ?r) ?ds"
      and J: "choose_mode E (fst ?r) = ''kitchen'' \<longrightarrow> (EMP_SATO_ID \<notin> set (fst ?r)) = ?sato"
      and B: "make_any_candidates E (snd ?r) d (fst ?r) (hope_set_of E ?ds) (ng_set_of E ?ds)
                (choose_mode E (fst ?r)) ?sato = []
          \<or> int (length ?today) + int ?n \<le> int (length (fst ?r))" by blast+
    from B show ?thesis
    proof
      assume "int (length ?today) + int ?n \<le> int (length (fst ?r))"
      with n show ?thesis unfolding sat_fill_def a A[symmetric] by simp
    next
      assume c: "make_any_candidates E (snd ?r) d (fst ?r) (hope_set_of E ?ds) (ng_set_of E ?ds)
                (choose_mode E (fst ?r)) ?sato = []"
      have "make_any_candidates E (snd ?r) d (fst ?r) (hope_set_of E ?ds) (ng_set_of E ?ds)
                (choose_mode E (fst ?r)) (EMP_SATO_ID \<notin> set (fst ?r)) = []"
      proof (cases "choose_mode E (fst ?r) = ''kitchen''")
        case True
        with J c show ?thesis by simp
      next
        case False
        from any_cands_sato[OF False] c show ?thesis by metis
      qed
      then show ?thesis unfolding sat_fill_def a A[symmetric] by simp
    qed
  qed
qed

lemma foldl_keeps:
  assumes "P s" "\<And>s d. d \<in> set ds \<Longrightarrow> P s \<Longrightarrow> P (f s d)"
  shows "P (foldl f s ds)"
  using assms by (induction ds arbitrary: s) simp_all

lemma foldl_establishes:
  assumes "\<And>s d. P (f s d) d" "\<And>s d d'. P s d \<Longrightarrow> P (f s d') d"
  shows "\<forall>d\<in>set ds. P (foldl f s ds) d"
proof (induction ds arbitrary: s)
  case Nil
  show ?case by simp
next
  case (Cons x xs)
  show ?case
  proof
    fix d assume "d \<in> set (x # xs)"
    then consider "d = x" | "d \<in> set xs" by auto
    then show "P (foldl f s (x # xs)) d"
    proof cases
      case 1
      have "P (f s x) x" by (rule assms(1))
      then have "P (foldl f (f s x) xs) x"
        by (rule foldl_keeps) (rule assms(2))
      with 1 show ?thesis by simp
    next
      case 2
      with Cons[of "f s x"] show ?thesis by simp
    qed
  qed
qed

lemma assign_employees_grows: "grows st (assign_employees_for_day E d t st)"
  using assign_employees_for_day_run[of d "[d]" E st t] by (simp add: run_grows)

lemma sat_emp_assign: "sat_emp E st d t \<Longrightarrow> sat_emp E (assign_employees_for_day E d' t' st) d t"
  using sat_emp_mono assign_employees_grows by blast

lemma phase1_sat: "\<forall>d\<in>set dates. sat_emp E (phase1 E dates st) d 2"
  unfolding phase1_def
  by (rule foldl_establishes) (rule assign_employees_sat, rule sat_emp_assign)

lemma phase2_sat: "\<forall>d\<in>set (phase2_dates dates hw). sat_emp E (phase2 E dates hw st) d 3"
  unfolding phase2_def
  by (rule foldl_establishes) (rule assign_employees_sat, rule sat_emp_assign)

lemma phase3_fold_sat:
  assumes "distinct (map strftime ds)"
    "\<forall>d\<in>set ds. staff_on (strftime d) combined = today_of E st (strftime d)"
  shows "\<forall>d\<in>set ds. sat_fill E (foldl (\<lambda>s d. fill_day E combined d s) st ds) d"
  using assms
proof (induction ds arbitrary: st)
  case Nil
  show ?case by simp
next
  case (Cons x xs)
  let ?st = "fill_day E combined x st"
  let ?fin = "foldl (\<lambda>s d. fill_day E combined d s) ?st xs"
  have cx: "staff_on (strftime x) combined = today_of E st (strftime x)" using Cons.prems(2) by simp
  from fill_day_run[OF _ cx, of "[x]"] have r1: "run E [x] st ?st" by simp
  from run_extends[OF r1] have ex: "extends_on {strftime x} st ?st" by simp
  have nx: "strftime x \<notin> strftime ` set xs" and dxs: "distinct (map strftime xs)"
    using Cons.prems(1) by simp_all
  have rest: "\<forall>d'\<in>set xs. staff_on (strftime d') combined = today_of E ?st (strftime d')"
  proof
    fix d' assume d': "d' \<in> set xs"
    then have "strftime d' \<in> strftime ` set xs" by (rule imageI)
    with nx have "strftime d' \<notin> {strftime x}" by (metis singletonD)
    from today_of_extends[OF ex this] Cons.prems(2) d'
    show "staff_on (strftime d') combined = today_of E ?st (strftime d')" by simp
  qed
  from phase3_fold_run[OF subset_refl dxs rest] have r2: "run E xs ?st ?fin" .
  from run_extends[OF r2] nx have "today_of E ?fin (strftime x) = today_of E ?st (strftime x)"
    by (rule today_of_extends)
  with fill_day_sat[OF cx] run_grows[OF r2] have "sat_fill E ?fin x"
    by (intro sat_fill_mono[of E ?st x ?fin]) simp_all
  moreover from Cons.IH[OF dxs rest] have "\<forall>d\<in>set xs. sat_fill E ?fin d" .
  ultimately show ?case by simp
qed

lemma phase3_sat:
  assumes "distinct (map strftime dates)"
  shows "\<forall>d\<in>set dates. sat_fill E (phase3 E dates st) d"
  unfolding phase3_def Let_def
  by (rule phase3_fold_sat) (simp_all add: assms today_of_def staff_on_append)

lemma closure_existing:
  "closure df rq ex' = (closure df rq ex)\<lparr>existing_shifts_df := ex'\<rparr>"
  by (simp add: closure_def)

lemma employee_candidate_existing:
  "employee_candidate (E\<lparr>existing_shifts_df := X\<rparr>) st = employee_candidate E st"
  by (intro ext) (simp add: employee_candidate_def Let_def)

lemma make_employee_candidates_existing:
  "make_employee_candidates (E\<lparr>existing_shifts_df := X\<rparr>) st = make_employee_candidates E st"
  by (intro ext) (simp add: make_employee_candidates_def employee_candidate_existing)

lemma kitchen_capable_existing:
  "is_kitchen_capable_for_day (E\<lparr>existing_shifts_df := X\<rparr>) = is_kitchen_capable_for_day E"
  by (intro ext) (simp add: is_kitchen_capable_for_day_def)

lemma counts_for_hall_existing:
  "counts_for_hall (E\<lparr>existing_shifts_df := X\<rparr>) = counts_for_hall E"
  by (intro ext) (simp add: counts_for_hall_def)

lemma kitchen_rank_existing:
  "kitchen_priority_rank (E\<lparr>existing_shifts_df := X\<rparr>) = kitchen_priority_rank E"
  by (intro ext) (simp add: kitchen_priority_rank_def)

lemma any_candidate_existing:
  "any_candidate (E\<lparr>existing_shifts_df := X\<rparr>) st = any_candidate E st"
  by (intro ext) (simp add: any_candidate_def kitchen_capable_existing counts_for_hall_existing)

lemma make_any_candidates_existing:
  "make_any_candidates (E\<lparr>existing_shifts_df := X\<rparr>) st = make_any_candidates E st"
  by (intro ext) (simp add: make_any_candidates_def Let_def any_candidate_existing kitchen_rank_existing)

lemma choose_mode_existing:
  "choose_mode (E\<lparr>existing_shifts_df := X\<rparr>) = choose_mode E"
  by (intro ext) (simp add: choose_mode_def kitchen_capable_existing counts_for_hall_existing)

lemma candidates_count_only:
  assumes "\<forall>sid. dict_get (assigned_count st) sid 0 \<le> dict_get (assigned_count st') sid 0"
  shows "make_employee_candidates E st d today hope ng = []
           \<Longrightarrow> make_employee_candidates E st' d today hope ng = []"
    and "make_any_candidates E st d today hope ng mode sato = []
           \<Longrightarrow> make_any_candidates E st' d today hope ng mode sato = []"
  using emp_cands_Nil_mono[OF _ subset_refl assms] any_cands_Nil_mono[OF _ subset_refl assms]
  by blast+

lemma employee_loop_Nil:
  "make_employee_candidates E st d today hope ng = []
     \<Longrightarrow> employee_loop E d ds hope ng n today st = (today, st)"
  by (cases n) simp_all

lemma fill_loop_Nil:
  "make_any_candidates E st d today hope ng (choose_mode E today) sato = []
     \<Longrightarrow> fill_loop E d ds hope ng sato n today st = (today, st)"
  by (cases n) simp_all

lemma foldl_noop: "(\<And>d. d \<in> set ds \<Longrightarrow> f s d = s) \<Longrightarrow> foldl f s ds = s"
  by (induction ds) simp_all

lemma occurrences_absent: "sid \<notin> shift_staff_id ` set df \<Longrightarrow> occurrences sid df = 0"
  by (induction df) (auto simp: occurrences_def)

text \<open>
  The second run: same roster and requests, confirmed rows extended by the rows of a
  state \<open>fin\<close> that the first run reached and in which every target is met or has no
  candidate left.
\<close>

lemma rerun_initial:
  assumes "run (closure df rq ex) dates (initial_state (closure df rq ex)) fin"
  shows "\<forall>sid. dict_get (assigned_count fin) sid 0
           \<le> dict_get (assigned_count (initial_state (closure df rq (ex @ new_shift_rows fin)))) sid 0"
proof
  fix sid
  let ?E = "closure df rq ex"
  let ?rws = "new_shift_rows fin"
  have n: "new_shift_rows (initial_state ?E) = []" by (simp add: initial_state_def)
  from run_counts[OF assms n, of sid]
  have c: "dict_get (assigned_count fin) sid 0
      = dict_get (initial_assigned_count ?E) sid 0 + occurrences sid ?rws"
    by (simp add: initial_state_def)
  have "\<forall>r\<in>set (new_shift_rows (initial_state ?E)). row_ok ?E dates r" by (simp add: n)
  from run_row_ok[OF assms this] roster_ids_in_dom[of df]
  have ids: "shift_staff_id ` set ?rws \<subseteq> dom (build_max_shifts_per_person df)"
    by (auto simp: row_ok_def)
  show "dict_get (assigned_count fin) sid 0
           \<le> dict_get (assigned_count (initial_state (closure df rq (ex @ ?rws)))) sid 0"
  proof (cases "sid \<in> dom (build_max_shifts_per_person df)")
    case True
    then show ?thesis by (simp add: c initial_state_def initial_count)
  next
    case False
    with ids have "sid \<notin> shift_staff_id ` set ?rws" by auto
    from occurrences_absent[OF this] False show ?thesis
      by (simp add: c initial_state_def initial_count)
  qed
qed

lemma assign_employees_for_day_unfold:
  "assign_employees_for_day E d t st =
     (if t \<le> core_count E (today_of E st (strftime d)) then st
      else snd (employee_loop E d (strftime d) (hope_set_of E (strftime d)) (ng_set_of E (strftime d))
                  (nat (t - core_count E (today_of E st (strftime d))))
                  (today_of E st (strftime d)) st))"
  by (simp add: assign_employees_for_day_def Let_def core_count_def today_of_def hope_set_of_def
      ng_set_of_def max_def)

lemma fill_day_unfold:
  "fill_day E combined d st =
     (if required_staff d \<le> int (length (staff_on (strftime d) combined)) then st
      else snd (fill_loop E d (strftime d) (hope_set_of E (strftime d)) (ng_set_of E (strftime d))
                  (EMP_SATO_ID \<notin> set (staff_on (strftime d) combined))
                  (nat (required_staff d - int (length (staff_on (strftime d) combined))))
                  (staff_on (strftime d) combined) st))"
  by (simp add: fill_day_def Let_def hope_set_of_def ng_set_of_def max_def)

lemma index_existing:
  "core_count (E\<lparr>existing_shifts_df := X\<rparr>) = core_count E"
  "hope_set_of (E\<lparr>existing_shifts_df := X\<rparr>) = hope_set_of E"
  "ng_set_of (E\<lparr>existing_shifts_df := X\<rparr>) = ng_set_of E"
  by (intro ext, simp add: core_count_def hope_set_of_def ng_set_of_def)+

lemma assign_employees_noop:
  assumes "sat_emp E fin d t"
    "\<forall>sid. dict_get (assigned_count fin) sid 0 \<le> dict_get (assigned_count st') sid 0"
    "new_shift_rows st' = []"
  shows "assign_employees_for_day (E\<lparr>existing_shifts_df := existing_shifts_df E @ new_shift_rows fin\<rparr>)
           d t st' = st'"
proof -
  let ?ds = "strftime d"
  let ?E' = "E\<lparr>existing_shifts_df := existing_shifts_df E @ new_shift_rows fin\<rparr>"
  let ?today = "today_of E fin ?ds"
  have t: "today_of ?E' st' ?ds = ?today"
    by (simp add: assms(3) today_of_def staff_on_append) (simp add: staff_on_def)
  show ?thesis
  proof (cases "t \<le> core_count E ?today")
    case True
    then show ?thesis
      by (simp add: assign_employees_for_day_unfold t index_existing)
  next
    case False
    with assms(1) have "make_employee_candidates E fin d ?today (hope_set_of E ?ds) (ng_set_of E ?ds) = []"
      by (simp add: sat_emp_def)
    from candidates_count_only(1)[OF assms(2) this]
    have "make_employee_candidates ?E' st' d ?today (hope_set_of E ?ds) (ng_set_of E ?ds) = []"
      by (simp add: make_employee_candidates_existing)
    from employee_loop_Nil[OF this] show ?thesis
      by (simp add: assign_employees_for_day_unfold t index_existing)
  qed
qed

lemma fill_day_noop:
  assumes "sat_fill E fin d"
    "\<forall>sid. dict_get (assigned_count fin) sid 0 \<le> dict_get (assigned_count st') sid 0"
  shows "fill_day (E\<lparr>existing_shifts_df := existing_shifts_df E @ new_shift_rows fin\<rparr>)
           (existing_shifts_df E @ new_shift_rows fin) d st' = st'"
proof -
  let ?ds = "strftime d"
  let ?E' = "E\<lparr>existing_shifts_df := existing_shifts_df E @ new_shift_rows fin\<rparr>"
  let ?today = "today_of E fin ?ds"
  have t: "staff_on ?ds (existing_shifts_df E @ new_shift_rows fin) = ?today"
    by (simp add: today_of_def staff_on_append)
  show ?thesis
  proof (cases "required_staff d \<le> int (length ?today)")
    case True
    then show ?thesis by (simp add: fill_day_unfold t)
  next
    case False
    with assms(1) have "make_any_candidates E fin d ?today (hope_set_of E ?ds) (ng_set_of E ?ds)
          (choose_mode E ?today) (EMP_SATO_ID \<notin> set ?today) = []"
      by (simp add: sat_fill_def)
    from candidates_count_only(2)[OF assms(2) this]
    have "make_any_candidates ?E' st' d ?today (hope_set_of E ?ds) (ng_set_of E ?ds)
          (choose_mode ?E' ?today) (EMP_SATO_ID \<notin> set ?today) = []"
      by (simp add: make_any_candidates_existing choose_mode_existing)
    from fill_loop_Nil[OF this] show ?thesis
      by (simp add: fill_day_unfold t index_existing)
  qed
qed

text \<open>
  Claim C5. If a run returns a proposal, the run with the same roster, requests and
  month, and the confirmed rows followed by that proposal, returns the empty proposal.
\<close>

theorem rerun_is_empty:
  assumes "auto_assign_shifts_for_month hol df y m rq ex = Inr rws"
  shows "auto_assign_shifts_for_month hol df y m rq (ex @ rws) = Inr []"
proof -
  let ?E = "closure df rq ex"
  from assms obtain dates where dr: "date_range_for_month y m = Inr dates"
    by (auto simp: auto_assign_shifts_for_month_def split: sum.splits)
  with assms obtain hw where hw: "holiday_weekdays hol dates = Inr hw"
    and r: "rws = new_shift_rows (phase3 ?E dates (phase2 ?E dates hw (phase1 ?E dates (initial_state ?E))))"
    by (auto simp: auto_assign_shifts_for_month_def Let_def split: sum.splits)
  let ?s1 = "phase1 ?E dates (initial_state ?E)"
  let ?s2 = "phase2 ?E dates hw ?s1"
  let ?fin = "phase3 ?E dates ?s2"
  have dist: "distinct (map strftime dates)" by (rule date_range_distinct_str[OF dr])
  have r1: "run ?E dates (initial_state ?E) ?s1" by (rule phase1_run)
  have r2: "run ?E dates ?s1 ?s2" by (rule phase2_run[OF holiday_weekdays_subset[OF hw]])
  have r3: "run ?E dates ?s2 ?fin" by (rule phase3_run[OF dist])
  have rall: "run ?E dates (initial_state ?E) ?fin" using r1 r2 r3 by (blast intro: run_trans)
  have g23: "grows ?s1 ?fin" using r2 r3 by (blast intro: run_trans run_grows)
  have g3: "grows ?s2 ?fin" using r3 by (rule run_grows)
  have sat1: "\<forall>d\<in>set dates. sat_emp ?E ?fin d 2"
    using phase1_sat[of dates ?E "initial_state ?E"] g23 by (blast intro: sat_emp_mono)
  have sat2: "\<forall>d\<in>set (phase2_dates dates hw). sat_emp ?E ?fin d 3"
    using phase2_sat[of dates hw ?E ?s1] g3 by (blast intro: sat_emp_mono)
  have sat3: "\<forall>d\<in>set dates. sat_fill ?E ?fin d" by (rule phase3_sat[OF dist])
  let ?E' = "closure df rq (ex @ rws)"
  let ?s' = "initial_state ?E'"
  have E': "?E' = ?E\<lparr>existing_shifts_df := existing_shifts_df ?E @ new_shift_rows ?fin\<rparr>"
    by (simp add: r closure_existing[of df rq "ex @ rws" ex])
  have cnt: "\<forall>sid. dict_get (assigned_count ?fin) sid 0 \<le> dict_get (assigned_count ?s') sid 0"
    using rerun_initial[OF rall] by (simp add: r)
  have n: "new_shift_rows ?s' = []" by (simp add: initial_state_def)
  have p1: "phase1 ?E' dates ?s' = ?s'"
    unfolding phase1_def
  proof (rule foldl_noop)
    fix d assume "d \<in> set dates"
    with sat1 have "sat_emp ?E ?fin d 2" by simp
    from assign_employees_noop[OF this cnt n] show "assign_employees_for_day ?E' d 2 ?s' = ?s'"
      by (simp only: E')
  qed
  have p2: "phase2 ?E' dates hw ?s' = ?s'"
    unfolding phase2_def
  proof (rule foldl_noop)
    fix d assume "d \<in> set (phase2_dates dates hw)"
    with sat2 have "sat_emp ?E ?fin d 3" by simp
    from assign_employees_noop[OF this cnt n] show "assign_employees_for_day ?E' d 3 ?s' = ?s'"
      by (simp only: E')
  qed
  have ex': "existing_shifts_df ?E' @ new_shift_rows ?s' = existing_shifts_df ?E @ new_shift_rows ?fin"
    unfolding n by (simp add: r)
  have p3: "phase3 ?E' dates ?s' = ?s'"
  proof -
    have "phase3 ?E' dates ?s'
        = foldl (\<lambda>s d. fill_day ?E' (existing_shifts_df ?E' @ new_shift_rows ?s') d s) ?s' dates"
      by (simp only: phase3_def Let_def)
    also have "\<dots> = foldl (\<lambda>s d. fill_day ?E' (existing_shifts_df ?E @ new_shift_rows ?fin) d s) ?s' dates"
      by (simp only: ex')
    also have "\<dots> = ?s'"
    proof (rule foldl_noop)
      fix d assume "d \<in> set dates"
      with sat3 have "sat_fill ?E ?fin d" by simp
      from fill_day_noop[OF this cnt]
      show "fill_day ?E' (existing_shifts_df ?E @ new_shift_rows ?fin) d ?s' = ?s'"
        by (simp only: E')
    qed
    finally show ?thesis .
  qed
  show ?thesis
    by (simp add: auto_assign_shifts_for_month_def dr hw Let_def p1 p2 p3 n)
qed

subsection \<open>Targets are approached and not exceeded\<close>
















subsection \<open>A worked run: February 2025\<close>

lemma ex_run:
  "auto_assign_shifts_for_month (Some ex_holiday) ex_staff 2025 2 ex_requests ex_existing
     = Inr ex_proposal"
  by code_simp

lemma ex_dates:
  "date_range_for_month 2025 2 =
     Inr (map (\<lambda>i. \<lparr>year = 2025, month = 2, day = 1 + i\<rparr>) [0..27])"
  by (simp add: date_range_for_month_def days_in_month_def mdays_def isleap_def)

lemma ex_distinct_ids: "distinct (map staff_id (rows ex_staff))"
  by (simp add: ex_staff_def)

text \<open>The properties at the worked run.\<close>

theorem no_double_booking_witness:
  "distinct (map (\<lambda>r. (date r, shift_staff_id r)) ex_proposal)
   \<and> set (map (\<lambda>r. (date r, shift_staff_id r)) ex_proposal)
       \<inter> set (map (\<lambda>r. (date r, shift_staff_id r)) ex_existing) = {}"
proof -
  from no_double_booking[OF ex_run]
  have d: "distinct (map (\<lambda>r. (date r, shift_staff_id r)) ex_proposal)"
    and i: "\<forall>r\<in>set ex_proposal. \<forall>e\<in>set ex_existing.
        (date r, shift_staff_id r) \<noteq> (date e, shift_staff_id e)" by blast+
  from i have "set (map (\<lambda>r. (date r, shift_staff_id r)) ex_proposal)
       \<inter> set (map (\<lambda>r. (date r, shift_staff_id r)) ex_existing) = {}" by fastforce
  with d show ?thesis by simp
qed

theorem blocked_never_assigned_witness:
  "(''2025-02-01'', ''S002'') \<notin> set (map (\<lambda>r. (date r, shift_staff_id r)) ex_proposal)"
proof -
  let ?b = "\<lparr>req_date = ''2025-02-01'', req_staff_id = ''S002'', request_type = NG,
      req_start_time = [], req_end_time = [], req_note = []\<rparr>"
  have b: "?b \<in> set ex_requests" by (simp add: ex_requests_def)
  have n: "request_type ?b = NG" by simp
  from blocked_never_assigned[OF ex_run b n] show ?thesis by fastforce
qed

theorem fixed_day_off_respected_witness:
  "(''2025-02-01'', ''S003'') \<notin> set (map (\<lambda>r. (date r, shift_staff_id r)) ex_proposal)"
proof -
  let ?w = "\<lparr>staff_id = ''S003'', role = Shain, position = PosOther, dayoff1 = Num 5, dayoff2 = Num 6,
      desired_shifts_per_week = Num 5, desired_shifts_per_month = Num 1\<rparr>"
  let ?d = "\<lparr>year = 2025, month = 2, day = 1\<rparr>"
  have w: "?w \<in> set (rows ex_staff)" by (simp add: ex_staff_def)
  have r: "role ?w = Shain" by simp
  have d: "?d \<in> set (map (\<lambda>i. \<lparr>year = 2025, month = 2, day = 1 + i\<rparr>) [0..27])"
    by (simp add: image_iff)
  have wd: "weekday ?d = 5"
    by (simp add: weekday_def toordinal_def days_before_year_def days_before_month_def isleap_def)
  have off: "dayoff1 ?w = Num (weekday ?d) \<or> dayoff2 ?w = Num (weekday ?d)" by (simp add: wd)
  have s: "strftime ?d = ''2025-02-01''" by code_simp
  from fixed_day_off_respected[OF ex_run ex_distinct_ids w r ex_dates d off] s
  show ?thesis by fastforce
qed

theorem proposed_rows_default_times_witness:
  "set (map (\<lambda>r. (start_time r, end_time r, source r)) ex_proposal) \<subseteq> {(''17:00'', ''24:00'', ''auto'')}"
  using proposed_rows_default_times[OF ex_run] by fastforce


theorem rerun_is_empty_witness:
  "auto_assign_shifts_for_month (Some ex_holiday) ex_staff 2025 2 ex_requests
     (ex_existing @ ex_proposal) = Inr []"
  using rerun_is_empty[OF ex_run] .

text \<open>
  Claim C2 as stated fails: in the worked run the part-timer P002 has a non-numeric cap
  (read as 0) and one confirmed row, so confirmed plus proposed is 1, above the cap.
\<close>

theorem capacity_counterexample:
  "auto_assign_shifts_for_month (Some ex_holiday) ex_staff 2025 2 ex_requests ex_existing
     = Inr ex_proposal
   \<and> staff_id (rows ex_staff ! 4) = ''P002''
   \<and> \<not> (occurrences ''P002'' ex_existing + occurrences ''P002'' ex_proposal
          \<le> to_int_safe (desired_shifts_per_month (rows ex_staff ! 4)) 0)"
  using ex_run
  by (simp add: ex_staff_def ex_existing_def ex_proposal_def occurrences_def to_int_safe_def)

theorem capacity_respected_amended_witness:
  "int (length (filter (\<lambda>r. shift_staff_id r = ''P001'') ex_proposal)) \<le> max 0 (2 - 0)"
proof -
  let ?w = "\<lparr>staff_id = ''P001'', role = Arubaito, position = AllRound, dayoff1 = Num 5, dayoff2 = NaN,
      desired_shifts_per_week = Num 5, desired_shifts_per_month = Num 2\<rparr>"
  have w: "?w \<in> set (rows ex_staff)" by (simp add: ex_staff_def)
  have h: "has_desired_shifts_per_month ex_staff" by (simp add: ex_staff_def)
  from capacity_respected_amended[OF ex_run h ex_distinct_ids w]
  show ?thesis by (simp add: to_int_safe_def ex_existing_def)
qed

theorem undefined_holiday_lookup_witness:
  "auto_assign_shifts_for_month None ex_staff 2025 2 ex_requests ex_existing
     = Inl (NameError ''get_jp_holiday_name'')"
  using undefined_holiday_lookup[of 2025 2 ex_staff ex_requests ex_existing] by simp

theorem candidate_ordering_amended_witness:
  "sorted (map (\<lambda>c. (\<not> ec_is_hope c, - ec_remaining_cap c, ec_assigned_count c, ec_staff_id c))
     (make_employee_candidates cx_order_env (initial_state cx_order_env)
        \<lparr>year = 2025, month = 2, day = 1\<rparr> [] {} {}))
   \<and> sorted (map (\<lambda>c. (\<not> ac_is_hope c, ac_is_employee c, ac_assigned_count c, ac_staff_id c))
     (make_any_candidates cx_order_env (initial_state cx_order_env)
        \<lparr>year = 2025, month = 2, day = 1\<rparr> [] {} {} ''hall'' True))"
proof -
  have m: "''hall'' \<noteq> ''kitchen''" by simp
  from candidate_ordering_amended[of cx_order_env "initial_state cx_order_env"
      "\<lparr>year = 2025, month = 2, day = 1\<rparr>" "[]" "{}" "{}" True "''hall''"] m
  show ?thesis by blast
qed

end
